theory Spec2Isabelle
  imports Main "HOL-Library.Sublist"
begin

section \<open>JavaScript strings and arrays\<close>

text \<open>
  The patches under \<^verbatim>\<open>src/specs/patches\<close> install JavaScript methods into the engine and
  the coder agent.  The embedded methods are modelled here.  A JavaScript string is a
  \<^typ>\<open>string\<close>; a value that may be missing (\<^verbatim>\<open>undefined\<close>, or \<^verbatim>\<open>NULL\<close> in a column of the
  store) is an option, and \<^term>\<open>None\<close> when it is missing.
\<close>

definition nl :: string where
  "nl = [CHR 0x0A]"

text \<open>The first occurrence of a separator: the text before it and the text after it.\<close>

fun split_first :: "string \<Rightarrow> string \<Rightarrow> (string \<times> string) option" where
  "split_first sep [] = (if sep = [] then Some ([], []) else None)"
| "split_first sep (c # cs) =
     (if prefix sep (c # cs) then Some ([], drop (length sep) (c # cs))
      else map_option (\<lambda>(b, a). (c # b, a)) (split_first sep cs))"

text \<open>\<^verbatim>\<open>s.includes(sep)\<close>\<close>

definition js_includes :: "string \<Rightarrow> string \<Rightarrow> bool" where
  "js_includes s sep = (split_first sep s \<noteq> None)"

text \<open>\<^verbatim>\<open>s.split(sep)\<close>: an empty separator splits into single characters.\<close>

function js_split :: "string \<Rightarrow> string \<Rightarrow> string list" where
  "js_split sep s =
     (if sep = [] then map (\<lambda>c. [c]) s
      else (case split_first sep s of
              None \<Rightarrow> [s]
            | Some (b, a) \<Rightarrow> b # js_split sep a))"
  by pat_completeness auto
termination
proof (relation "measure (\<lambda>(sep, s). length s)")
  show "wf (measure (\<lambda>(sep, s). length s))" by simp
next
  fix sep s :: string and x2 :: "string \<times> string" and b a :: string
  assume ne: "sep \<noteq> []" and sf: "split_first sep s = Some x2" and x2: "(b, a) = x2"
  have "\<And>b a. sep \<noteq> [] \<Longrightarrow> split_first sep s = Some (b, a) \<Longrightarrow> length a < length s"
  proof (induction s)
    case Nil
    then show ?case by simp
  next
    case (Cons c cs)
    show ?case
    proof (cases "prefix sep (c # cs)")
      case True
      with Cons.prems have "a = drop (length sep) (c # cs)" by simp
      moreover from Cons.prems(1) have "0 < length sep" by simp
      ultimately show ?thesis by simp
    next
      case False
      with Cons.prems obtain b' where "split_first sep cs = Some (b', a)"
        by (auto split: prod.splits)
      with Cons.IH [OF Cons.prems(1)] have "length a < length cs" by blast
      then show ?thesis by simp
    qed
  qed
  from this [of b a] ne sf x2 have "length a < length s" by simp
  then show "((sep, a), (sep, s)) \<in> measure (\<lambda>(sep, s). length s)" by simp
qed

declare js_split.simps [simp del]

text \<open>\<^verbatim>\<open>xs.join(sep)\<close>\<close>

fun js_join :: "string \<Rightarrow> string list \<Rightarrow> string" where
  "js_join sep [] = []"
| "js_join sep [x] = x"
| "js_join sep (x # y # ys) = x @ sep @ js_join sep (y # ys)"

text \<open>
  The replacement text of \<^verbatim>\<open>String.prototype.replace\<close> for a string pattern (no capture
  groups): \<^verbatim>\<open>$$\<close> is a dollar sign, \<^verbatim>\<open>$&\<close> the matched text, \<^verbatim>\<open>$`\<close> the text before the
  match and \<^verbatim>\<open>$'\<close> the text after it; every other character stands for itself.
\<close>

fun js_get_substitution :: "string \<Rightarrow> string \<Rightarrow> string \<Rightarrow> string \<Rightarrow> string" where
  "js_get_substitution matched preceding following [] = []"
| "js_get_substitution matched preceding following [c] = [c]"
| "js_get_substitution matched preceding following (c # d # rest) =
     (if c = CHR ''$'' \<and> d = CHR ''$'' then CHR ''$'' # js_get_substitution matched preceding following rest
      else if c = CHR ''$'' \<and> d = CHR ''&'' then matched @ js_get_substitution matched preceding following rest
      else if c = CHR ''$'' \<and> d = CHR 0x60 then preceding @ js_get_substitution matched preceding following rest
      else if c = CHR ''$'' \<and> d = CHR 0x27 then following @ js_get_substitution matched preceding following rest
      else c # js_get_substitution matched preceding following (d # rest))"

text \<open>\<^verbatim>\<open>s.replace(pat, repl)\<close> with a string pattern: the first occurrence only.\<close>

definition js_replace :: "string \<Rightarrow> string \<Rightarrow> string \<Rightarrow> string" where
  "js_replace s pat repl =
     (case split_first pat s of
        None \<Rightarrow> s
      | Some (b, a) \<Rightarrow> b @ js_get_substitution pat b a repl @ a)"

text \<open>\<^verbatim>\<open>xs.slice(start, end)\<close>: a negative index counts from the end.\<close>

definition js_slice :: "'a list \<Rightarrow> int \<Rightarrow> int \<Rightarrow> 'a list" where
  "js_slice xs start fin =
     (let len = int (length xs);
          k = (if start < 0 then max (len + start) 0 else min start len);
          e = (if fin < 0 then max (len + fin) 0 else min fin len)
      in take (nat (e - k)) (drop (nat k) xs))"

text \<open>\<^verbatim>\<open>xs.slice(start)\<close>\<close>

definition js_slice_from :: "'a list \<Rightarrow> int \<Rightarrow> 'a list" where
  "js_slice_from xs start = js_slice xs start (int (length xs))"

text \<open>Decimal rendering of a number, as string concatenation does it.\<close>

function string_of_nat :: "nat \<Rightarrow> string" where
  "string_of_nat n =
     (if n < 10 then [''0123456789'' ! n]
      else string_of_nat (n div 10) @ [''0123456789'' ! (n mod 10)])"
  by pat_completeness auto
termination
  by (relation "measure id") auto

declare string_of_nat.simps [simp del]

definition js_number_to_string :: "int \<Rightarrow> string" where
  "js_number_to_string i =
     (if i < 0 then CHR ''-'' # string_of_nat (nat (- i)) else string_of_nat (nat i))"

text \<open>A template literal renders \<^verbatim>\<open>undefined\<close> by its name.\<close>

definition js_str :: "string option \<Rightarrow> string" where
  "js_str v = (case v of None \<Rightarrow> ''undefined'' | Some s \<Rightarrow> s)"

text \<open>Truthiness of a string-valued field: neither missing nor empty.\<close>

definition truthy :: "string option \<Rightarrow> bool" where
  "truthy v = (case v of None \<Rightarrow> False | Some s \<Rightarrow> s \<noteq> [])"

text \<open>A thrown JavaScript error: its \<^verbatim>\<open>message\<close> and, for a failed child process, its \<^verbatim>\<open>stderr\<close>.\<close>

record js_error =
  message :: "string option"
  stderr :: "string option"

definition Error :: "string \<Rightarrow> js_error" where
  "Error m = \<lparr>message = Some m, stderr = None\<rparr>"

section \<open>The coder agent's files (apply-surgical-edits.py)\<close>

text \<open>
  The file system is a map from full paths to entries.  Node's \<^verbatim>\<open>path\<close> module is not
  part of the repository: \<^verbatim>\<open>path.join\<close> and \<^verbatim>\<open>path.dirname\<close> are parameters.
\<close>

datatype fs_entry = File string | Dir

type_synonym filesystem = "string \<Rightarrow> fs_entry option"

record node_path =
  path_join :: "string \<Rightarrow> string \<Rightarrow> string"
  path_dirname :: "string \<Rightarrow> string"

definition existsSync :: "filesystem \<Rightarrow> string \<Rightarrow> bool" where
  "existsSync fs p = (fs p \<noteq> None)"

text \<open>A path between single quotes, as Node's error messages show it.\<close>

definition quoted :: "string \<Rightarrow> string" where
  "quoted p = CHR 0x27 # p @ [CHR 0x27]"

definition readFileSync :: "filesystem \<Rightarrow> string \<Rightarrow> js_error + string" where
  "readFileSync fs p =
     (case fs p of
        None \<Rightarrow> Inl (Error (''ENOENT: no such file or directory, open '' @ quoted p))
      | Some Dir \<Rightarrow> Inl (Error ''EISDIR: illegal operation on a directory, read'')
      | Some (File c) \<Rightarrow> Inr c)"

text \<open>The \<^verbatim>\<open>TypeError\<close> of \<^verbatim>\<open>fs.writeFileSync\<close> for data that is \<^verbatim>\<open>undefined\<close>.\<close>

definition undefined_data_error :: js_error where
  "undefined_data_error =
     Error (''The '' @ [CHR 0x22] @ ''data'' @ [CHR 0x22] @
       '' argument must be of type string or an instance of Buffer, TypedArray, or DataView. '' @
       ''Received undefined'')"

text \<open>
  \<^verbatim>\<open>fs.writeFileSync(p, data)\<close>.  Data that is \<^verbatim>\<open>undefined\<close> is rejected before the file is
  opened.  A directory cannot be written.  An existing file is overwritten.  A new file
  is created in the directory of the path, which has to exist and to be a directory.
\<close>

definition writeFileSync ::
  "node_path \<Rightarrow> filesystem \<Rightarrow> string \<Rightarrow> string option \<Rightarrow> js_error + filesystem" where
  "writeFileSync np fs p data =
     (case data of
        None \<Rightarrow> Inl undefined_data_error
      | Some c \<Rightarrow>
          (case fs p of
             Some Dir \<Rightarrow>
               Inl (Error (''EISDIR: illegal operation on a directory, open '' @ quoted p))
           | Some (File old) \<Rightarrow> Inr (fs(p \<mapsto> File c))
           | None \<Rightarrow>
               (case fs (path_dirname np p) of
                  Some Dir \<Rightarrow> Inr (fs(p \<mapsto> File c))
                | Some (File other) \<Rightarrow>
                    Inl (Error (''ENOTDIR: not a directory, open '' @ quoted p))
                | None \<Rightarrow>
                    Inl (Error (''ENOENT: no such file or directory, open '' @ quoted p)))))"

text \<open>
  \<^verbatim>\<open>fs.mkdirSync(p, { recursive: true })\<close>.  Only the directory itself is recorded on the
  disk: the directories above it are taken to exist.  The statements below that depend on
  a directory being created say so in their hypotheses.
\<close>

definition mkdirSync :: "filesystem \<Rightarrow> string \<Rightarrow> js_error + filesystem" where
  "mkdirSync fs p =
     (case fs p of
        None \<Rightarrow> Inr (fs(p \<mapsto> Dir))
      | Some Dir \<Rightarrow> Inr fs
      | Some (File c) \<Rightarrow> Inl (Error (''EEXIST: file already exists, mkdir '' @ quoted p)))"

definition default_maxLines :: int where
  "default_maxLines = 300"

text \<open>\<^verbatim>\<open>fetchExistingFileContent(repoDir, filePath, maxLines = 300)\<close>\<close>

definition fetchExistingFileContent ::
  "node_path \<Rightarrow> filesystem \<Rightarrow> string \<Rightarrow> string \<Rightarrow> int \<Rightarrow> js_error + string option" where
  "fetchExistingFileContent np fs repoDir filePath maxLines =
     (let fullPath = path_join np repoDir filePath in
      if \<not> existsSync fs fullPath then Inr None
      else (case readFileSync fs fullPath of
              Inl e \<Rightarrow> Inl e
            | Inr content \<Rightarrow>
                (let lines = js_split nl content in
                 if int (length lines) > maxLines then
                   (let headLines = js_slice lines 0 (maxLines div 2);
                        tailLines = js_slice_from lines (- (maxLines div 2))
                    in Inr (Some (js_join nl headLines @
                         nl @ nl @ ''... ['' @ js_number_to_string (int (length lines) - maxLines) @
                         '' lines truncated] ...'' @ nl @ nl @
                         js_join nl tailLines)))
                 else Inr (Some content))))"

text \<open>A line of the agent's structured log: level, message and fields.\<close>

datatype log_field = Str string | Num nat

datatype log_entry = Log_entry string string "(string \<times> log_field) list"

text \<open>A patch of a modify edit; a field is \<^term>\<open>None\<close> when the patch does not have it.\<close>

record patch =
  search :: "string option"
  replace :: "string option"

text \<open>
  A file edit of the generation call.  \<^term>\<open>patches\<close> is \<^term>\<open>None\<close> when the field is
  missing or is not an array.
\<close>

record file_edit =
  path :: string
  action :: "string option"
  patches :: "patch list option"
  content :: "string option"

text \<open>
  The body of the loop over \<^verbatim>\<open>file.patches\<close>, on the in-memory content, the count of
  applied patches and the log.
\<close>

definition apply_patch ::
  "string \<Rightarrow> patch \<Rightarrow> string \<times> nat \<times> log_entry list \<Rightarrow> string \<times> nat \<times> log_entry list" where
  "apply_patch file_path p st =
     (case st of (fileContent, patchesApplied, lg) \<Rightarrow>
        if \<not> truthy (search p) \<or> replace p = None then
          (fileContent, patchesApplied,
           lg @ [Log_entry ''warn'' ''Invalid patch format'' [(''path'', Str file_path)]])
        else if \<not> js_includes fileContent (the (search p)) then
          (fileContent, patchesApplied,
           lg @ [Log_entry ''warn'' ''Patch search text not found''
                   [(''path'', Str file_path),
                    (''searchPreview'', Str (take 50 (the (search p)) @ ''...''))]])
        else
          (let occurrences = length (js_split (the (search p)) fileContent) - 1;
               lg' = (if occurrences > 1
                      then lg @ [Log_entry ''warn'' ''Patch search text not unique''
                                   [(''path'', Str file_path), (''occurrences'', Num occurrences)]]
                      else lg)
           in (js_replace fileContent (the (search p)) (the (replace p)), patchesApplied + 1, lg')))"

fun apply_patches ::
  "string \<Rightarrow> patch list \<Rightarrow> string \<times> nat \<times> log_entry list \<Rightarrow> string \<times> nat \<times> log_entry list" where
  "apply_patches file_path [] st = st"
| "apply_patches file_path (p # ps) st = apply_patches file_path ps (apply_patch file_path p st)"

text \<open>The state of \<^verbatim>\<open>writeFiles\<close>: the disk, the log and the array \<^verbatim>\<open>written\<close>.\<close>

record coder_state =
  disk :: filesystem
  coder_log :: "log_entry list"
  written :: "string list"

text \<open>
  One iteration of the loop over \<^verbatim>\<open>files\<close>.  A thrown error ends \<^verbatim>\<open>writeFiles\<close>; what was
  written to the disk before it stays.
\<close>

definition writeFile ::
  "node_path \<Rightarrow> string \<Rightarrow> file_edit \<Rightarrow> coder_state \<Rightarrow> js_error option \<times> coder_state" where
  "writeFile np repoDir file st =
     (let filePath = path_join np repoDir (path file);
          fileDir = path_dirname np filePath
      in case (if \<not> existsSync (disk st) fileDir then mkdirSync (disk st) fileDir
               else Inr (disk st)) of
           Inl e \<Rightarrow> (Some e, st)
         | Inr d1 \<Rightarrow>
             (let st1 = st\<lparr>disk := d1\<rparr> in
              if action file = Some ''modify'' \<and> patches file \<noteq> None then
                if \<not> existsSync d1 filePath then
                  (None, st1\<lparr>coder_log := coder_log st1 @
                     [Log_entry ''error'' ''Cannot modify non-existent file'' [(''path'', Str (path file))]]\<rparr>)
                else
                  (case readFileSync d1 filePath of
                     Inl e \<Rightarrow> (Some e, st1)
                   | Inr c0 \<Rightarrow>
                       (case apply_patches (path file) (the (patches file)) (c0, 0, coder_log st1) of
                          (fileContent, patchesApplied, lg) \<Rightarrow>
                            if patchesApplied > 0 then
                              (case writeFileSync np d1 filePath (Some fileContent) of
                                 Inl e \<Rightarrow> (Some e, st1\<lparr>coder_log := lg\<rparr>)
                               | Inr d2 \<Rightarrow>
                                   (None, st1\<lparr>disk := d2,
                                     coder_log := lg @
                                       [Log_entry ''info'' ''Applied patches to file''
                                          [(''path'', Str (path file)),
                                           (''patchesApplied'', Num patchesApplied),
                                           (''totalPatches'', Num (length (the (patches file))))]],
                                     written := written st1 @ [path file]\<rparr>))
                            else
                              (None, st1\<lparr>coder_log := lg @
                                 [Log_entry ''error'' ''No patches applied to file''
                                    [(''path'', Str (path file))]]\<rparr>)))
              else
                (case writeFileSync np d1 filePath (content file) of
                   Inl e \<Rightarrow> (Some e, st1)
                 | Inr d2 \<Rightarrow>
                     (None, st1\<lparr>disk := d2,
                       coder_log := coder_log st1 @
                         [Log_entry ''info'' ''Wrote file''
                            [(''path'', Str (path file)), (''bytes'', Num (length (the (content file))))]],
                       written := written st1 @ [path file]\<rparr>))))"

fun writeFiles_loop ::
  "node_path \<Rightarrow> string \<Rightarrow> file_edit list \<Rightarrow> coder_state \<Rightarrow> js_error option \<times> coder_state" where
  "writeFiles_loop np repoDir [] st = (None, st)"
| "writeFiles_loop np repoDir (file # files) st =
     (case writeFile np repoDir file st of
        (Some e, st') \<Rightarrow> (Some e, st')
      | (None, st') \<Rightarrow> writeFiles_loop np repoDir files st')"

text \<open>
  \<^verbatim>\<open>writeFiles(repoDir, files)\<close> on a disk and a log: the thrown error or the returned array
  \<^verbatim>\<open>written\<close>, with the disk and the log it leaves.
\<close>

definition writeFiles ::
  "node_path \<Rightarrow> string \<Rightarrow> file_edit list \<Rightarrow> filesystem \<Rightarrow> log_entry list \<Rightarrow>
     (js_error + string list) \<times> filesystem \<times> log_entry list" where
  "writeFiles np repoDir files d lg =
     (case writeFiles_loop np repoDir files \<lparr>disk = d, coder_log = lg, written = []\<rparr> of
        (Some e, st) \<Rightarrow> (Inl e, disk st, coder_log st)
      | (None, st) \<Rightarrow> (Inr (written st), disk st, coder_log st))"

section \<open>The review engine (apply-sentinel-polling.py)\<close>

text \<open>A row of the table \<^verbatim>\<open>tickets\<close>; a nullable column is an option.\<close>

record ticket =
  ticket_id :: string
  state :: string
  assignee_id :: "string option"
  assignee_type :: "string option"
  vm_id :: "int option"
  pr_url :: "string option"
  branch_name :: "string option"
  repo_url :: "string option"
  project_id :: "string option"
  design_session :: "string option"
  acceptance_criteria :: "string option"
  verification_status :: "string option"
  last_heartbeat :: "nat option"
  updated_at :: nat
  merged_at :: "nat option"

datatype payload = No_payload | Phase string | PrUrl string | Reason "string option"

record event =
  ev_ticket :: string
  ev_type :: string
  from_state :: string
  to_state :: string
  ev_payload :: payload

record notification =
  nt_ticket :: string
  nt_state :: string
  nt_payload :: payload

text \<open>
  What the engine's methods act on: the store (tickets, projects, design sessions, the
  event log), the notifications sent to observers, the log, the shell commands run and the
  store's clock (\<^verbatim>\<open>NOW()\<close>).  \<^term>\<open>faults\<close> scripts the calls to external collaborators
  that are still to come: the next call throws the error at the head of the list, if
  there is one, and succeeds otherwise.
\<close>

record engine =
  tickets :: "ticket list"
  projects :: "(string \<times> string option) list"
  hitl_sessions :: "(string \<times> string option) list"
  events :: "event list"
  notifications :: "notification list"
  engine_log :: "(string \<times> string) list"
  commands :: "string list"
  now :: nat
  faults :: "js_error option list"

text \<open>The external collaborators that return a value: the verifier, the shell, the serialiser.\<close>

record verify_args =
  arg_ticketId :: string
  arg_branchName :: "string option"
  arg_repoUrl :: "string option"
  arg_attempt :: nat
  arg_acceptanceCriteria :: "string option"
  arg_phases :: "string list"

record verify_result =
  status :: string
  feedback_for_agent :: "string list option"

record env =
  verify :: "verify_args \<Rightarrow> js_error + verify_result"
  execSync :: "string \<Rightarrow> js_error + unit"
  JSON_stringify :: "verify_result \<Rightarrow> string"

text \<open>Sequencing of awaited calls, and \<^verbatim>\<open>try { ... } catch (err) { ... }\<close>.\<close>

definition bind_io ::
  "(engine \<Rightarrow> (js_error + 'a) \<times> engine) \<Rightarrow> ('a \<Rightarrow> engine \<Rightarrow> (js_error + 'b) \<times> engine) \<Rightarrow>
     engine \<Rightarrow> (js_error + 'b) \<times> engine" where
  "bind_io m f w = (case m w of (Inl e, w') \<Rightarrow> (Inl e, w') | (Inr a, w') \<Rightarrow> f a w')"

definition return_io :: "'a \<Rightarrow> engine \<Rightarrow> (js_error + 'a) \<times> engine" where
  "return_io a w = (Inr a, w)"

definition try_catch ::
  "(engine \<Rightarrow> (js_error + 'a) \<times> engine) \<Rightarrow> (js_error \<Rightarrow> engine \<Rightarrow> (js_error + 'a) \<times> engine) \<Rightarrow>
     engine \<Rightarrow> (js_error + 'a) \<times> engine" where
  "try_catch m h w = (case m w of (Inl e, w') \<Rightarrow> h e w' | (Inr a, w') \<Rightarrow> (Inr a, w'))"

text \<open>The next scripted fault, consumed by a call to an external collaborator.\<close>

definition next_fault :: "engine \<Rightarrow> js_error option \<times> engine" where
  "next_fault w = (case faults w of [] \<Rightarrow> (None, w) | f # fs \<Rightarrow> (f, w\<lparr>faults := fs\<rparr>))"

text \<open>\<^verbatim>\<open>log(level, message)\<close>\<close>

definition log_line :: "string \<Rightarrow> string \<Rightarrow> engine \<Rightarrow> engine" where
  "log_line level msg w = w\<lparr>engine_log := engine_log w @ [(level, msg)]\<rparr>"

text \<open>
  \<^verbatim>\<open>UPDATE tickets SET ... WHERE ... RETURNING *\<close> through \<^verbatim>\<open>pgPool.query\<close>: every row that
  satisfies the condition is updated, and the updated rows are returned.
\<close>

definition pg_update_tickets ::
  "(ticket \<Rightarrow> bool) \<Rightarrow> (nat \<Rightarrow> ticket \<Rightarrow> ticket) \<Rightarrow> engine \<Rightarrow> (js_error + ticket list) \<times> engine" where
  "pg_update_tickets cond upd w =
     (case next_fault w of
        (Some e, w') \<Rightarrow> (Inl e, w')
      | (None, w') \<Rightarrow>
          (Inr (map (upd (now w')) (filter cond (tickets w'))),
           w'\<lparr>tickets := map (\<lambda>t. if cond t then upd (now w') t else t) (tickets w')\<rparr>))"

text \<open>\<^verbatim>\<open>SELECT repo_url FROM hitl_sessions WHERE id = $1\<close>\<close>

definition pg_select_session_repo_url ::
  "string \<Rightarrow> engine \<Rightarrow> (js_error + string option list) \<times> engine" where
  "pg_select_session_repo_url sid w =
     (case next_fault w of
        (Some e, w') \<Rightarrow> (Inl e, w')
      | (None, w') \<Rightarrow> (Inr (map snd (filter (\<lambda>r. fst r = sid) (hitl_sessions w'))), w'))"

text \<open>
  Modelled from the spec: \<^verbatim>\<open>getProject\<close>, \<^verbatim>\<open>emitEvent\<close> and \<^verbatim>\<open>notifyTicketStateChange\<close>
  are methods of the engine that the patch calls and does not define.  \<^verbatim>\<open>getProject\<close> is a
  point lookup of the owning project, here of its repo URL; \<^verbatim>\<open>emitEvent\<close> appends an audit
  record with ticket id, event type, from-state, to-state and payload to the event log;
  \<^verbatim>\<open>notifyTicketStateChange\<close> hands ticket id, new state and payload to the observers.
\<close>

definition getProject :: "string \<Rightarrow> engine \<Rightarrow> (js_error + string option option) \<times> engine" where
  "getProject pid w =
     (case next_fault w of
        (Some e, w') \<Rightarrow> (Inl e, w')
      | (None, w') \<Rightarrow> (Inr (map_of (projects w') pid), w'))"

definition emitEvent ::
  "string \<Rightarrow> string \<Rightarrow> string \<Rightarrow> string \<Rightarrow> payload \<Rightarrow> engine \<Rightarrow> (js_error + unit) \<times> engine" where
  "emitEvent ticketId ty from to pl w =
     (case next_fault w of
        (Some e, w') \<Rightarrow> (Inl e, w')
      | (None, w') \<Rightarrow>
          (Inr (), w'\<lparr>events := events w' @
             [\<lparr>ev_ticket = ticketId, ev_type = ty, from_state = from, to_state = to, ev_payload = pl\<rparr>]\<rparr>))"

definition notifyTicketStateChange ::
  "string \<Rightarrow> string \<Rightarrow> payload \<Rightarrow> engine \<Rightarrow> (js_error + unit) \<times> engine" where
  "notifyTicketStateChange ticketId st pl w =
     (case next_fault w of
        (Some e, w') \<Rightarrow> (Inl e, w')
      | (None, w') \<Rightarrow>
          (Inr (), w'\<lparr>notifications := notifications w' @
             [\<lparr>nt_ticket = ticketId, nt_state = st, nt_payload = pl\<rparr>]\<rparr>))"

text \<open>The \<^verbatim>\<open>WHERE\<close> clause and the \<^verbatim>\<open>SET\<close> clause of the claim.\<close>

definition claimable :: "string \<Rightarrow> ticket \<Rightarrow> bool" where
  "claimable ticketId t =
     (ticket_id t = ticketId \<and> state t = ''in_review'' \<and> assignee_id t = Some ''sentinel-agent'')"

definition claim_row :: "nat \<Rightarrow> ticket \<Rightarrow> ticket" where
  "claim_row t0 t =
     t\<lparr>state := ''reviewing'', vm_id := Some (- 1), last_heartbeat := Some t0, updated_at := t0\<rparr>"

definition atomicClaimReviewTicket :: "string \<Rightarrow> engine \<Rightarrow> (js_error + ticket option) \<times> engine" where
  "atomicClaimReviewTicket ticketId =
     bind_io (pg_update_tickets (claimable ticketId) claim_row)
       (\<lambda>rows. case rows of
          [] \<Rightarrow> return_io None
        | r # _ \<Rightarrow>
            bind_io (notifyTicketStateChange ticketId ''reviewing'' (Phase ''sentinel''))
              (\<lambda>_. bind_io (emitEvent ticketId ''sentinel_started'' ''in_review'' ''reviewing'' No_payload)
                (\<lambda>_. return_io (Some r))))"

definition merged_row :: "nat \<Rightarrow> ticket \<Rightarrow> ticket" where
  "merged_row t0 t = t\<lparr>state := ''merged'', vm_id := None, merged_at := Some t0, updated_at := t0\<rparr>"

definition setMerged :: "string \<Rightarrow> string \<Rightarrow> engine \<Rightarrow> (js_error + unit) \<times> engine" where
  "setMerged ticketId prUrl =
     bind_io (pg_update_tickets (\<lambda>t. ticket_id t = ticketId) merged_row)
       (\<lambda>_. bind_io (notifyTicketStateChange ticketId ''merged'' (PrUrl prUrl))
         (\<lambda>_. bind_io (emitEvent ticketId ''merged'' ''reviewing'' ''merged'' (PrUrl prUrl))
           (\<lambda>_ w. (Inr (), log_line ''INFO'' (''[STATE] Ticket '' @ ticketId @ '' -> merged'') w))))"

definition sentinel_failed_row :: "nat \<Rightarrow> ticket \<Rightarrow> ticket" where
  "sentinel_failed_row t0 t =
     t\<lparr>state := ''sentinel_failed'', vm_id := None,
       verification_status := Some ''sentinel_rejected'', updated_at := t0\<rparr>"

definition setSentinelFailed :: "string \<Rightarrow> string option \<Rightarrow> engine \<Rightarrow> (js_error + unit) \<times> engine" where
  "setSentinelFailed ticketId reason =
     bind_io (pg_update_tickets (\<lambda>t. ticket_id t = ticketId) sentinel_failed_row)
       (\<lambda>_. bind_io (notifyTicketStateChange ticketId ''sentinel_failed'' (Reason reason))
         (\<lambda>_. bind_io (emitEvent ticketId ''sentinel_failed'' ''reviewing'' ''sentinel_failed'' (Reason reason))
           (\<lambda>_ w. (Inr (), log_line ''WARN''
              (''[STATE] Ticket '' @ ticketId @ '' -> sentinel_failed: '' @ js_str reason) w))))"

text \<open>\<^verbatim>\<open>_getRepoUrlForTicket(ticket)\<close>\<close>

definition getRepoUrlForTicket :: "ticket \<Rightarrow> engine \<Rightarrow> (js_error + string option) \<times> engine" where
  "getRepoUrlForTicket t =
     (if truthy (repo_url t) then return_io (repo_url t)
      else
        bind_io
          (if truthy (project_id t) then
             bind_io (getProject (the (project_id t)))
               (\<lambda>project. return_io
                  (case project of Some r \<Rightarrow> (if truthy r then r else None) | None \<Rightarrow> None))
           else return_io None)
          (\<lambda>found.
             if found \<noteq> None then return_io found
             else if truthy (design_session t) then
               bind_io (pg_select_session_repo_url (the (design_session t)))
                 (\<lambda>rows. return_io
                    (case rows of r # _ \<Rightarrow> (if truthy r then r else None) | [] \<Rightarrow> None))
             else return_io None))"

text \<open>
  \<^verbatim>\<open>prUrl.match(/github\.com\/([^\/]+)\/([^\/]+)\/pull\/(\d+)/)\<close>: the pattern at the head
  of a string, then its leftmost match in a string.  A run of \<^verbatim>\<open>[^\/]+\<close> ends at the next
  slash and a run of \<^verbatim>\<open>\d+\<close> at the next character that is no digit.
\<close>

definition strip_prefix :: "string \<Rightarrow> string \<Rightarrow> string option" where
  "strip_prefix p s = (if prefix p s then Some (drop (length p) s) else None)"

definition is_digit :: "char \<Rightarrow> bool" where
  "is_digit c = (c \<in> set ''0123456789'')"

definition not_slash :: "char \<Rightarrow> bool" where
  "not_slash c = (c \<noteq> CHR ''/'')"

definition match_pr_here :: "string \<Rightarrow> (string \<times> string \<times> string) option" where
  "match_pr_here s =
     (case strip_prefix ''github.com/'' s of
        None \<Rightarrow> None
      | Some r1 \<Rightarrow>
          (let owner = takeWhile not_slash r1 in
           if owner = [] then None
           else (case strip_prefix ''/'' (dropWhile not_slash r1) of
                   None \<Rightarrow> None
                 | Some r2 \<Rightarrow>
                     (let repo = takeWhile not_slash r2 in
                      if repo = [] then None
                      else (case strip_prefix ''/pull/'' (dropWhile not_slash r2) of
                              None \<Rightarrow> None
                            | Some r3 \<Rightarrow>
                                (let prNumber = takeWhile is_digit r3 in
                                 if prNumber = [] then None
                                 else Some (owner, repo, prNumber)))))))"

fun match_pr_url :: "string \<Rightarrow> (string \<times> string \<times> string) option" where
  "match_pr_url [] = match_pr_here []"
| "match_pr_url (c # cs) =
     (case match_pr_here (c # cs) of
        Some m \<Rightarrow> Some m
      | None \<Rightarrow> match_pr_url cs)"

text \<open>\<^verbatim>\<open>execSync(mergeCmd, ...)\<close>: the command is run, and the shell's answer is the environment's.\<close>

definition run_execSync :: "env \<Rightarrow> string \<Rightarrow> engine \<Rightarrow> (js_error + unit) \<times> engine" where
  "run_execSync ev cmd w = (execSync ev cmd, w\<lparr>commands := commands w @ [cmd]\<rparr>)"

text \<open>
  \<^verbatim>\<open>err.message?.includes('already been merged') || err.stderr?.toString().includes('already been merged')\<close>
\<close>

definition already_merged :: "js_error \<Rightarrow> bool" where
  "already_merged err =
     ((case message err of None \<Rightarrow> False | Some m \<Rightarrow> js_includes m ''already been merged'') \<or>
      (case stderr err of None \<Rightarrow> False | Some s \<Rightarrow> js_includes s ''already been merged''))"

definition mergePR ::
  "env \<Rightarrow> string \<Rightarrow> string \<Rightarrow> string option \<Rightarrow> engine \<Rightarrow> (js_error + unit) \<times> engine" where
  "mergePR ev ticketId prUrl branchName w =
     (case match_pr_url prUrl of
        None \<Rightarrow> (Inl (Error (''Invalid PR URL: '' @ prUrl)), w)
      | Some (owner, repo, prNumber) \<Rightarrow>
          (let fullRepo = owner @ ''/'' @ repo;
               mergeCmd = ''gh pr merge '' @ prNumber @ '' --repo '' @ fullRepo @
                          '' --squash --delete-branch''
           in try_catch
                (bind_io (run_execSync ev mergeCmd) (\<lambda>_. setMerged ticketId prUrl))
                (\<lambda>err w'.
                   if already_merged err then
                     setMerged ticketId prUrl
                       (log_line ''INFO'' (''[MERGE] PR #'' @ prNumber @ '' was already merged'') w')
                   else (Inl err, w'))
                (log_line ''INFO'' (''[MERGE] Merging PR #'' @ prNumber @ '' in '' @ fullRepo) w)))"

text \<open>The call of the verifier, with the arguments \<^verbatim>\<open>executeSentinelReview\<close> passes.\<close>

definition call_verify ::
  "env \<Rightarrow> ticket \<Rightarrow> string \<Rightarrow> string option \<Rightarrow> engine \<Rightarrow> (js_error + verify_result) \<times> engine" where
  "call_verify ev t ticketId repoUrl w =
     (verify ev \<lparr>arg_ticketId = ticketId, arg_branchName = branch_name t, arg_repoUrl = repoUrl,
                 arg_attempt = 1, arg_acceptanceCriteria = acceptance_criteria t,
                 arg_phases = [''sentinel'']\<rparr>, w)"

text \<open>\<^verbatim>\<open>verifyResult.feedback_for_agent?.join(', ') || 'No feedback'\<close>\<close>

definition feedback_text :: "verify_result \<Rightarrow> string" where
  "feedback_text r =
     (case feedback_for_agent r of
        None \<Rightarrow> ''No feedback''
      | Some fs \<Rightarrow> (if js_join '', '' fs = [] then ''No feedback'' else js_join '', '' fs))"

text \<open>The body of the \<^verbatim>\<open>try\<close> block of \<^verbatim>\<open>executeSentinelReview\<close>.\<close>

definition sentinel_review_body :: "env \<Rightarrow> ticket \<Rightarrow> engine \<Rightarrow> (js_error + unit) \<times> engine" where
  "sentinel_review_body ev t =
     (let ticketId = ticket_id t in
      bind_io (atomicClaimReviewTicket ticketId)
        (\<lambda>claimed.
           if claimed = None then
             (\<lambda>w. (Inr (), log_line ''WARN'' (''[SENTINEL] Could not claim ticket '' @ ticketId) w))
           else
             bind_io (if truthy (repo_url t) then return_io (repo_url t) else getRepoUrlForTicket t)
               (\<lambda>repoUrl.
                  if \<not> truthy (pr_url t) then
                    (\<lambda>w. setSentinelFailed ticketId (Some ''No PR URL found'')
                            (log_line ''ERROR'' (''[SENTINEL] No PR URL for ticket '' @ ticketId) w))
                  else
                    bind_io (call_verify ev t ticketId repoUrl)
                      (\<lambda>verifyResult w.
                         (let w1 = log_line ''INFO''
                                (''[SENTINEL] Review result for '' @ ticketId @ '': '' @ status verifyResult) w
                          in if status verifyResult = ''passed'' then
                               try_catch (mergePR ev ticketId (the (pr_url t)) (branch_name t))
                                 (\<lambda>mergeErr w'.
                                    setSentinelFailed ticketId
                                      (Some (''Merge failed: '' @ js_str (message mergeErr)))
                                      (log_line ''ERROR''
                                         (''[SENTINEL] Merge failed for '' @ ticketId @ '': '' @
                                          js_str (message mergeErr)) w'))
                                 (log_line ''INFO''
                                    (''[SENTINEL] Approved! Merging PR for '' @ ticketId) w1)
                             else
                               setSentinelFailed ticketId (Some (JSON_stringify ev verifyResult))
                                 (log_line ''WARN''
                                    (''[SENTINEL] Review failed for '' @ ticketId @ '': '' @
                                     feedback_text verifyResult) w1))))))"

text \<open>
  \<^verbatim>\<open>executeSentinelReview(ticket)\<close>: \<^term>\<open>Inl\<close> is the rejection of the promise it returns,
  which the dispatch loop's \<^verbatim>\<open>.catch\<close> receives.
\<close>

definition executeSentinelReview :: "env \<Rightarrow> ticket \<Rightarrow> engine \<Rightarrow> (js_error + unit) \<times> engine" where
  "executeSentinelReview ev t w =
     (let ticketId = ticket_id t in
      try_catch (sentinel_review_body ev t)
        (\<lambda>err w'.
           setSentinelFailed ticketId (message err)
             (log_line ''ERROR''
                (''[SENTINEL] Error reviewing '' @ ticketId @ '': '' @ js_str (message err)) w'))
        (log_line ''INFO'' (''[SENTINEL] Starting review for '' @ ticketId) w))"

text \<open>
  The dispatch loop's call: \<^verbatim>\<open>this.executeSentinelReview(ticket).catch(err => log('ERROR', ...))\<close>.
\<close>

definition dispatch_review :: "env \<Rightarrow> ticket \<Rightarrow> engine \<Rightarrow> engine" where
  "dispatch_review ev t w =
     (case executeSentinelReview ev t w of
        (Inl err, w') \<Rightarrow>
          log_line ''ERROR''
            (''[SENTINEL] Async review error for '' @ ticket_id t @ '': '' @ js_str (message err)) w'
      | (Inr u, w') \<Rightarrow> w')"

text \<open>
  A sequence of claim attempts on one ticket, one after the other as the store serialises
  them; each attempt runs at its own time of the store's clock.  The results are collected.
\<close>

fun claim_attempts :: "string \<Rightarrow> nat list \<Rightarrow> engine \<Rightarrow> (js_error + ticket option) list \<times> engine" where
  "claim_attempts ticketId [] w = ([], w)"
| "claim_attempts ticketId (t0 # ts) w =
     (case atomicClaimReviewTicket ticketId (w\<lparr>now := t0\<rparr>) of
        (r, w') \<Rightarrow> (case claim_attempts ticketId ts w' of (rs, w'') \<Rightarrow> (r # rs, w'')))"

section \<open>Notions used in the statements\<close>

text \<open>
  The disk after the first lines of an iteration of \<^verbatim>\<open>writeFiles\<close>, which create the
  directory of the target when nothing exists there.
\<close>

definition dir_ensured :: "node_path \<Rightarrow> string \<Rightarrow> string \<Rightarrow> filesystem \<Rightarrow> filesystem" where
  "dir_ensured np repoDir p d =
     (let fileDir = path_dirname np (path_join np repoDir p)
      in if d fileDir = None then d(fileDir \<mapsto> Dir) else d)"

text \<open>A patch that the loop over the patches skips on the content \<open>c\<close>: invalid, or not found.\<close>

definition patch_skipped :: "string \<Rightarrow> patch \<Rightarrow> bool" where
  "patch_skipped c p =
     (\<not> truthy (search p) \<or> replace p = None \<or> \<not> js_includes c (the (search p)))"

text \<open>The rows of a ticket in the store.\<close>

definition rows_of :: "string \<Rightarrow> engine \<Rightarrow> ticket list" where
  "rows_of ticketId w = filter (\<lambda>t. ticket_id t = ticketId) (tickets w)"

text \<open>A path module and a disk with one file, for the examples.\<close>

definition simple_path :: node_path where
  "simple_path =
     \<lparr>path_join = (\<lambda>a b. a @ ''/'' @ b),
      path_dirname = (\<lambda>p. rev (drop 1 (dropWhile (\<lambda>c. c \<noteq> CHR ''/'') (rev p))))\<rparr>"

definition one_file :: "string \<Rightarrow> string \<Rightarrow> filesystem" where
  "one_file p c = (\<lambda>q. if q = p then Some (File c) else None)"


text \<open>A file of 1000 lines, for the examples.\<close>

definition big_file :: string where
  "big_file = js_join nl (replicate 1000 ''x'')"

text \<open>A ticket awaiting review and a store that holds given tickets, for the examples.\<close>

definition ticket_T1 :: ticket where
  "ticket_T1 =
     \<lparr>ticket_id = ''T1'', state = ''in_review'', assignee_id = Some ''sentinel-agent'',
      assignee_type = Some ''agent'', vm_id = None,
      pr_url = Some ''https://github.com/acme/widgets/pull/42'', branch_name = Some ''swarm/T1'',
      repo_url = Some ''https://github.com/acme/widgets'', project_id = None,
      design_session = None, acceptance_criteria = None, verification_status = None,
      last_heartbeat = None, updated_at = 3, merged_at = None\<rparr>"

definition store_with :: "ticket list \<Rightarrow> js_error option list \<Rightarrow> engine" where
  "store_with ts fl =
     \<lparr>tickets = ts, projects = [], hitl_sessions = [], events = [], notifications = [],
      engine_log = [], commands = [], now = 7, faults = fl\<rparr>"

text \<open>External collaborators with fixed answers, for the examples.\<close>

definition env_of :: "(js_error + verify_result) \<Rightarrow> (js_error + unit) \<Rightarrow> env" where
  "env_of v x =
     \<lparr>verify = (\<lambda>_. v), execSync = (\<lambda>_. x),
      JSON_stringify = (\<lambda>r. ''{status: '' @ status r @ ''}'')\<rparr>"

text \<open>
  A store whose fourth and fifth calls fail, a verifier that rejects, a verifier that
  approves a pull request that cannot be merged and a verifier that throws, for the examples.
\<close>

definition failing_store :: engine where
  "failing_store =
     store_with [ticket_T1]
       [None, None, None, Some (Error ''Connection terminated''),
        Some (Error ''Connection terminated'')]"

definition rejecting_verifier :: env where
  "rejecting_verifier =
     env_of (Inr \<lparr>status = ''failed'', feedback_for_agent = Some [''missing test'']\<rparr>) (Inr ())"

definition unmergeable :: env where
  "unmergeable =
     env_of (Inr \<lparr>status = ''passed'', feedback_for_agent = None\<rparr>)
       (Inl (Error ''HTTP 405: not mergeable''))"

definition crashing_verifier :: env where
  "crashing_verifier = env_of (Inl (Error ''verifier crashed'')) (Inr ())"

section \<open>Strings: first occurrence, splitting and joining\<close>

lemma split_first_SomeD:
  "split_first sep s = Some (b, a) \<Longrightarrow> s = b @ sep @ a"
proof (induction s arbitrary: b)
  case Nil
  then show ?case by (simp split: if_splits)
next
  case (Cons c cs)
  show ?case
  proof (cases "prefix sep (c # cs)")
    case True
    with Cons.prems have "b = []" "a = drop (length sep) (c # cs)" by simp_all
    moreover from True obtain z where "c # cs = sep @ z" by (auto simp: prefix_def)
    ultimately show ?thesis by simp
  next
    case False
    with Cons.prems obtain b' where "split_first sep cs = Some (b', a)" "b = c # b'"
      by (auto split: prod.splits)
    with Cons.IH show ?thesis by simp
  qed
qed

lemma split_first_least:
  "split_first sep s = Some (b, a) \<Longrightarrow> s = b' @ sep @ a' \<Longrightarrow> length b \<le> length b'"
proof (induction s arbitrary: b b')
  case Nil
  then show ?case by (simp split: if_splits)
next
  case (Cons c cs)
  show ?case
  proof (cases "prefix sep (c # cs)")
    case True
    with Cons.prems(1) have "b = []" by simp
    then show ?thesis by simp
  next
    case False
    with Cons.prems(1) obtain b0 where b0: "split_first sep cs = Some (b0, a)" "b = c # b0"
      by (auto split: prod.splits)
    from False Cons.prems(2) have "b' \<noteq> []" by (auto simp: prefix_def)
    then obtain b1 where b1: "b' = c # b1" using Cons.prems(2) by (cases b') auto
    with Cons.prems(2) have "cs = b1 @ sep @ a'" by simp
    from Cons.IH [OF b0(1) this] b0 b1 show ?thesis by simp
  qed
qed

lemma split_first_None:
  "split_first sep s = None \<Longrightarrow> s \<noteq> b @ sep @ a"
proof (induction s arbitrary: b)
  case Nil
  then show ?case by (simp split: if_splits)
next
  case (Cons c cs)
  from Cons.prems have np: "\<not> prefix sep (c # cs)" and rest: "split_first sep cs = None"
    by (auto split: if_splits)
  show ?case
  proof
    assume eq: "c # cs = b @ sep @ a"
    from np eq have "b \<noteq> []" by (auto simp: prefix_def)
    then obtain b1 where "b = c # b1" using eq by (cases b) auto
    with eq have "cs = b1 @ sep @ a" by simp
    with Cons.IH [OF rest] show False by blast
  qed
qed

lemma js_includes_iff: "js_includes s sep \<longleftrightarrow> (\<exists>b a. s = b @ sep @ a)"
proof
  assume "js_includes s sep"
  then obtain b a where "split_first sep s = Some (b, a)" by (auto simp: js_includes_def)
  then show "\<exists>b a. s = b @ sep @ a" by (blast dest: split_first_SomeD)
next
  assume "\<exists>b a. s = b @ sep @ a"
  then show "js_includes s sep"
    unfolding js_includes_def using split_first_None by blast
qed

lemma get_substitution_plain:
  "CHR ''$'' \<notin> set r \<Longrightarrow> js_get_substitution m b a r = r"
  by (induction m b a r rule: js_get_substitution.induct) auto

text \<open>A replacement text with a dollar pattern is expanded: \<^verbatim>\<open>$&\<close> stands for the match.\<close>

lemma replacement_pattern_expanded: "js_replace ''axb'' ''x'' ''$&$&'' = ''axxb''"
  by (simp add: js_replace_def)

section \<open>The patch engine\<close>

lemma apply_patches_append:
  "apply_patches fp (ps @ qs) st = apply_patches fp qs (apply_patches fp ps st)"
  by (induction ps arbitrary: st) simp_all

lemma dir_ensured_file:
  "d (path_join np repoDir p) = Some e \<Longrightarrow> dir_ensured np repoDir p d (path_join np repoDir p) = Some e"
  by (auto simp: dir_ensured_def Let_def)


lemma writeFile_modify_existing:
  assumes "action file = Some ''modify''" and "patches file = Some ps"
    and "disk st (path_join np repoDir (path file)) = Some (File c)"
    and "apply_patches (path file) ps (c, 0, coder_log st) = (c', n, lg)"
  shows "writeFile np repoDir file st =
     (None,
      if n > 0 then
        st\<lparr>disk := (dir_ensured np repoDir (path file) (disk st))(path_join np repoDir (path file) \<mapsto> File c'),
           coder_log := lg @ [Log_entry ''info'' ''Applied patches to file''
              [(''path'', Str (path file)), (''patchesApplied'', Num n), (''totalPatches'', Num (length ps))]],
           written := written st @ [path file]\<rparr>
      else
        st\<lparr>disk := dir_ensured np repoDir (path file) (disk st),
           coder_log := lg @ [Log_entry ''error'' ''No patches applied to file'' [(''path'', Str (path file))]]\<rparr>)"
  using assms
  by (auto simp: writeFile_def Let_def existsSync_def mkdirSync_def readFileSync_def writeFileSync_def
      dir_ensured_def split: option.splits fs_entry.splits)

lemma foo_bar_baz:
  "apply_patches p [\<lparr>search = Some ''foo'', replace = Some ''bar''\<rparr>,
                    \<lparr>search = Some ''bar'', replace = Some ''baz''\<rparr>] (''foo'', 0, lg) = (''baz'', 2, lg)"
  by (simp add: apply_patch_def truthy_def js_includes_def js_replace_def js_split.simps Let_def)

lemma bar_baz_foo:
  "apply_patches p [\<lparr>search = Some ''bar'', replace = Some ''baz''\<rparr>,
                    \<lparr>search = Some ''foo'', replace = Some ''bar''\<rparr>] (''foo'', 0, lg) =
     (''bar'', 1, lg @ [Log_entry ''warn'' ''Patch search text not found''
                   [(''path'', Str p), (''searchPreview'', Str ''bar...'')]])"
  by (simp add: apply_patch_def truthy_def js_includes_def js_replace_def js_split.simps Let_def)

text \<open>
  C5: \<^verbatim>\<open>writeFiles\<close> applies the patches of a modify edit in list order, each on the
  content the previous patch left: running a list of patches is running its first part and
  then its second part on the result.  On a file that holds \<^verbatim>\<open>foo\<close>, the patches
  foo \<rightarrow> bar, bar \<rightarrow> baz leave \<^verbatim>\<open>baz\<close>; in the other order the first patch is not
  found and the file is left with \<^verbatim>\<open>bar\<close>.
\<close>

theorem writeFiles_patches_in_order:
  assumes "d (path_join np repoDir p) = Some (File ''foo'')"
  shows "apply_patches p (ps @ qs) st = apply_patches p qs (apply_patches p ps st) \<and>
    writeFiles np repoDir
      [\<lparr>path = p, action = Some ''modify'',
        patches = Some [\<lparr>search = Some ''foo'', replace = Some ''bar''\<rparr>,
                        \<lparr>search = Some ''bar'', replace = Some ''baz''\<rparr>],
        content = None\<rparr>] d lg =
      (Inr [p],
       (dir_ensured np repoDir p d)(path_join np repoDir p \<mapsto> File ''baz''),
       lg @ [Log_entry ''info'' ''Applied patches to file''
               [(''path'', Str p), (''patchesApplied'', Num 2), (''totalPatches'', Num 2)]]) \<and>
    writeFiles np repoDir
      [\<lparr>path = p, action = Some ''modify'',
        patches = Some [\<lparr>search = Some ''bar'', replace = Some ''baz''\<rparr>,
                        \<lparr>search = Some ''foo'', replace = Some ''bar''\<rparr>],
        content = None\<rparr>] d lg =
      (Inr [p],
       (dir_ensured np repoDir p d)(path_join np repoDir p \<mapsto> File ''bar''),
       lg @ [Log_entry ''warn'' ''Patch search text not found''
               [(''path'', Str p), (''searchPreview'', Str ''bar...'')],
             Log_entry ''info'' ''Applied patches to file''
               [(''path'', Str p), (''patchesApplied'', Num 1), (''totalPatches'', Num 2)]])"
proof (intro conjI)
  show "apply_patches p (ps @ qs) st = apply_patches p qs (apply_patches p ps st)"
    by (rule apply_patches_append)
next
  let ?e = "\<lparr>path = p, action = Some ''modify'',
        patches = Some [\<lparr>search = Some ''foo'', replace = Some ''bar''\<rparr>,
                        \<lparr>search = Some ''bar'', replace = Some ''baz''\<rparr>],
        content = None\<rparr>"
  let ?st = "\<lparr>disk = d, coder_log = lg, written = []\<rparr>"
  have "writeFile np repoDir ?e ?st = (None,
        ?st\<lparr>disk := (dir_ensured np repoDir p d)(path_join np repoDir p \<mapsto> File ''baz''),
           coder_log := lg @ [Log_entry ''info'' ''Applied patches to file''
              [(''path'', Str p), (''patchesApplied'', Num 2), (''totalPatches'', Num 2)]],
           written := [p]\<rparr>)"
    using writeFile_modify_existing [of ?e _ ?st np repoDir "''foo''" "''baz''" 2 lg] assms
    by (simp del: apply_patches.simps add: foo_bar_baz)
  then show "writeFiles np repoDir [?e] d lg =
      (Inr [p],
       (dir_ensured np repoDir p d)(path_join np repoDir p \<mapsto> File ''baz''),
       lg @ [Log_entry ''info'' ''Applied patches to file''
               [(''path'', Str p), (''patchesApplied'', Num 2), (''totalPatches'', Num 2)]])"
    by (simp add: writeFiles_def)
next
  let ?e = "\<lparr>path = p, action = Some ''modify'',
        patches = Some [\<lparr>search = Some ''bar'', replace = Some ''baz''\<rparr>,
                        \<lparr>search = Some ''foo'', replace = Some ''bar''\<rparr>],
        content = None\<rparr>"
  let ?st = "\<lparr>disk = d, coder_log = lg, written = []\<rparr>"
  let ?lg = "lg @ [Log_entry ''warn'' ''Patch search text not found''
               [(''path'', Str p), (''searchPreview'', Str ''bar...'')]]"
  have "writeFile np repoDir ?e ?st = (None,
        ?st\<lparr>disk := (dir_ensured np repoDir p d)(path_join np repoDir p \<mapsto> File ''bar''),
           coder_log := ?lg @ [Log_entry ''info'' ''Applied patches to file''
              [(''path'', Str p), (''patchesApplied'', Num 1), (''totalPatches'', Num 2)]],
           written := [p]\<rparr>)"
    using writeFile_modify_existing [of ?e _ ?st np repoDir "''foo''" "''bar''" 1 ?lg] assms
    by (simp del: apply_patches.simps add: bar_baz_foo)
  then show "writeFiles np repoDir [?e] d lg =
      (Inr [p],
       (dir_ensured np repoDir p d)(path_join np repoDir p \<mapsto> File ''bar''),
       lg @ [Log_entry ''warn'' ''Patch search text not found''
               [(''path'', Str p), (''searchPreview'', Str ''bar...'')],
             Log_entry ''info'' ''Applied patches to file''
               [(''path'', Str p), (''patchesApplied'', Num 1), (''totalPatches'', Num 2)]])"
    by (simp add: writeFiles_def)
qed

theorem writeFiles_patches_in_order_witness:
  "one_file ''/repo/a.txt'' ''foo'' (path_join simple_path ''/repo'' ''a.txt'') = Some (File ''foo'') \<and>
   fst (writeFiles simple_path ''/repo''
      [\<lparr>path = ''a.txt'', action = Some ''modify'',
        patches = Some [\<lparr>search = Some ''foo'', replace = Some ''bar''\<rparr>,
                        \<lparr>search = Some ''bar'', replace = Some ''baz''\<rparr>],
        content = None\<rparr>] (one_file ''/repo/a.txt'' ''foo'') []) = Inr [''a.txt''] \<and>
   fst (snd (writeFiles simple_path ''/repo''
      [\<lparr>path = ''a.txt'', action = Some ''modify'',
        patches = Some [\<lparr>search = Some ''foo'', replace = Some ''bar''\<rparr>,
                        \<lparr>search = Some ''bar'', replace = Some ''baz''\<rparr>],
        content = None\<rparr>] (one_file ''/repo/a.txt'' ''foo'') [])) ''/repo/a.txt'' = Some (File ''baz'') \<and>
   fst (snd (writeFiles simple_path ''/repo''
      [\<lparr>path = ''a.txt'', action = Some ''modify'',
        patches = Some [\<lparr>search = Some ''bar'', replace = Some ''baz''\<rparr>,
                        \<lparr>search = Some ''foo'', replace = Some ''bar''\<rparr>],
        content = None\<rparr>] (one_file ''/repo/a.txt'' ''foo'') [])) ''/repo/a.txt'' = Some (File ''bar'')"
proof -
  have h: "one_file ''/repo/a.txt'' ''foo'' (path_join simple_path ''/repo'' ''a.txt'') = Some (File ''foo'')"
    by (simp add: one_file_def simple_path_def)
  from writeFiles_patches_in_order [where d = "one_file ''/repo/a.txt'' ''foo''" and np = simple_path
      and repoDir = "''/repo''" and p = "''a.txt''" and ps = "[]" and qs = "[]"
      and st = "(''foo'', 0, [])" and lg = "[]"] h
  show ?thesis by (simp add: simple_path_def)
qed

lemma apply_patch_skipped:
  "patch_skipped c p \<Longrightarrow> \<exists>lg'. apply_patch fp p (c, n, lg) = (c, n, lg')"
  by (auto simp: apply_patch_def patch_skipped_def)

lemma apply_patch_applied:
  "\<not> patch_skipped c p \<Longrightarrow> \<exists>c' lg'. apply_patch fp p (c, n, lg) = (c', Suc n, lg')"
  by (auto simp: apply_patch_def patch_skipped_def Let_def)

lemma apply_patches_count_mono:
  "n \<le> fst (snd (apply_patches fp ps (c, n, lg)))"
proof (induction ps arbitrary: c n lg)
  case Nil
  then show ?case by simp
next
  case (Cons p ps)
  show ?case
  proof (cases "patch_skipped c p")
    case True
    then obtain lg' where "apply_patch fp p (c, n, lg) = (c, n, lg')"
      using apply_patch_skipped by blast
    with Cons.IH [of n c lg'] show ?thesis by simp
  next
    case False
    then obtain c' lg' where "apply_patch fp p (c, n, lg) = (c', Suc n, lg')"
      using apply_patch_applied by blast
    with Cons.IH [of "Suc n" c' lg'] show ?thesis by simp
  qed
qed

lemma apply_patches_all_skipped:
  "\<forall>p\<in>set ps. patch_skipped c p \<Longrightarrow> \<exists>lg'. apply_patches fp ps (c, n, lg) = (c, n, lg')"
proof (induction ps arbitrary: lg)
  case Nil
  then show ?case by simp
next
  case (Cons p ps)
  then obtain lg1 where "apply_patch fp p (c, n, lg) = (c, n, lg1)"
    using apply_patch_skipped [of c p fp n lg] by auto
  with Cons show ?case by simp
qed

lemma apply_patches_zero_iff:
  "fst (snd (apply_patches fp ps (c, n, lg))) = n \<longleftrightarrow> (\<forall>p\<in>set ps. patch_skipped c p)"
proof
  assume "\<forall>p\<in>set ps. patch_skipped c p"
  then show "fst (snd (apply_patches fp ps (c, n, lg))) = n"
    using apply_patches_all_skipped [of ps c fp n lg] by auto
next
  assume "fst (snd (apply_patches fp ps (c, n, lg))) = n"
  then show "\<forall>p\<in>set ps. patch_skipped c p"
  proof (induction ps arbitrary: lg)
    case Nil
    then show ?case by simp
  next
    case (Cons p ps)
    show ?case
    proof (cases "patch_skipped c p")
      case True
      then obtain lg' where "apply_patch fp p (c, n, lg) = (c, n, lg')"
        using apply_patch_skipped by blast
      with Cons True show ?thesis by simp
    next
      case False
      then obtain c' lg' where "apply_patch fp p (c, n, lg) = (c', Suc n, lg')"
        using apply_patch_applied by blast
      with Cons.prems apply_patches_count_mono [of "Suc n" fp ps c' lg'] show ?thesis by simp
    qed
  qed
qed

text \<open>
  C4: a modify edit on an existing file none of whose patches is applied, which is the
  case exactly when every patch is invalid or its search text is absent from the file,
  leaves the file as it was, does not add the path to the written paths and logs the
  failure.  The only change to the disk is the directory of the target, created when
  nothing existed there.
\<close>

theorem zero_apply_guard:
  assumes m: "action file = Some ''modify''" and ps: "patches file = Some ps"
    and ex: "disk st (path_join np repoDir (path file)) = Some (File c)"
  shows "(fst (snd (apply_patches (path file) ps (c, 0, coder_log st))) = 0 \<longleftrightarrow>
            (\<forall>p\<in>set ps. patch_skipped c p)) \<and>
     (fst (snd (apply_patches (path file) ps (c, 0, coder_log st))) = 0 \<longrightarrow>
       (\<exists>st'. writeFile np repoDir file st = (None, st') \<and>
          disk st' = dir_ensured np repoDir (path file) (disk st) \<and>
          disk st' (path_join np repoDir (path file)) = Some (File c) \<and>
          written st' = written st \<and>
          last (coder_log st') =
            Log_entry ''error'' ''No patches applied to file'' [(''path'', Str (path file))]) \<and>
       fst (writeFiles np repoDir [file] (disk st) (coder_log st)) = Inr [] \<and>
       fst (snd (writeFiles np repoDir [file] (disk st) (coder_log st)))
         (path_join np repoDir (path file)) = Some (File c))"
proof (intro conjI impI)
  show "fst (snd (apply_patches (path file) ps (c, 0, coder_log st))) = 0 \<longleftrightarrow>
            (\<forall>p\<in>set ps. patch_skipped c p)"
    by (rule apply_patches_zero_iff)
next
  assume zero: "fst (snd (apply_patches (path file) ps (c, 0, coder_log st))) = 0"
  obtain c' lg where ap: "apply_patches (path file) ps (c, 0, coder_log st) = (c', 0, lg)"
    using zero by (cases "apply_patches (path file) ps (c, 0, coder_log st)") auto
  let ?st' = "st\<lparr>disk := dir_ensured np repoDir (path file) (disk st),
           coder_log := lg @ [Log_entry ''error'' ''No patches applied to file'' [(''path'', Str (path file))]]\<rparr>"
  have wf: "writeFile np repoDir file st = (None, ?st')"
    using writeFile_modify_existing [OF m ps ex ap] by simp
  moreover have "disk ?st' (path_join np repoDir (path file)) = Some (File c)"
    using ex by (simp add: dir_ensured_file)
  ultimately show "\<exists>st'. writeFile np repoDir file st = (None, st') \<and>
          disk st' = dir_ensured np repoDir (path file) (disk st) \<and>
          disk st' (path_join np repoDir (path file)) = Some (File c) \<and>
          written st' = written st \<and>
          last (coder_log st') =
            Log_entry ''error'' ''No patches applied to file'' [(''path'', Str (path file))]"
    by (intro exI [of _ ?st']) simp
  let ?s0 = "\<lparr>disk = disk st, coder_log = coder_log st, written = []\<rparr>"
  have wf0: "writeFile np repoDir file ?s0 = (None,
      ?s0\<lparr>disk := dir_ensured np repoDir (path file) (disk st),
           coder_log := lg @ [Log_entry ''error'' ''No patches applied to file'' [(''path'', Str (path file))]]\<rparr>)"
  proof -
    have ex0: "disk ?s0 (path_join np repoDir (path file)) = Some (File c)"
      using ex by simp
    have ap0: "apply_patches (path file) ps (c, 0, coder_log ?s0) = (c', 0, lg)"
      using ap by simp
    from writeFile_modify_existing [OF m ps ex0 ap0] show ?thesis by simp
  qed
  then show "fst (writeFiles np repoDir [file] (disk st) (coder_log st)) = Inr []"
    by (simp add: writeFiles_def)
  from wf0 ex show "fst (snd (writeFiles np repoDir [file] (disk st) (coder_log st)))
         (path_join np repoDir (path file)) = Some (File c)"
    by (simp add: writeFiles_def dir_ensured_file)
qed

theorem zero_apply_guard_witness:
  "fst (snd (apply_patches ''a.txt''
       [\<lparr>search = Some ''xyz'', replace = Some ''q''\<rparr>, \<lparr>search = None, replace = Some ''r''\<rparr>]
       (''hello'', 0, []))) = 0 \<and>
   writeFiles simple_path ''/repo''
     [\<lparr>path = ''a.txt'', action = Some ''modify'',
       patches = Some [\<lparr>search = Some ''xyz'', replace = Some ''q''\<rparr>,
                       \<lparr>search = None, replace = Some ''r''\<rparr>],
       content = None\<rparr>] (one_file ''/repo/a.txt'' ''hello'') [] =
     (Inr [],
      (one_file ''/repo/a.txt'' ''hello'')(''/repo'' \<mapsto> Dir),
      [Log_entry ''warn'' ''Patch search text not found''
         [(''path'', Str ''a.txt''), (''searchPreview'', Str ''xyz...'')],
       Log_entry ''warn'' ''Invalid patch format'' [(''path'', Str ''a.txt'')],
       Log_entry ''error'' ''No patches applied to file'' [(''path'', Str ''a.txt'')]]) \<and>
   ((one_file ''/repo/a.txt'' ''hello'')(''/repo'' \<mapsto> Dir)) ''/repo/a.txt'' = Some (File ''hello'')"
proof -
  let ?e = "\<lparr>path = ''a.txt'', action = Some ''modify'',
       patches = Some [\<lparr>search = Some ''xyz'', replace = Some ''q''\<rparr>,
                       \<lparr>search = None, replace = Some ''r''\<rparr>],
       content = None\<rparr>"
  let ?st = "\<lparr>disk = one_file ''/repo/a.txt'' ''hello'', coder_log = [], written = []\<rparr>"
  have z: "apply_patches ''a.txt''
       [\<lparr>search = Some ''xyz'', replace = Some ''q''\<rparr>, \<lparr>search = None, replace = Some ''r''\<rparr>]
       (''hello'', 0, []) = (''hello'', 0,
      [Log_entry ''warn'' ''Patch search text not found''
         [(''path'', Str ''a.txt''), (''searchPreview'', Str ''xyz...'')],
       Log_entry ''warn'' ''Invalid patch format'' [(''path'', Str ''a.txt'')]])"
    by (simp add: apply_patch_def truthy_def js_includes_def)
  have "action ?e = Some ''modify''" and "patches ?e = Some [\<lparr>search = Some ''xyz'', replace = Some ''q''\<rparr>,
                       \<lparr>search = None, replace = Some ''r''\<rparr>]"
    and "disk ?st (path_join simple_path ''/repo'' (path ?e)) = Some (File ''hello'')"
    by (simp_all add: simple_path_def one_file_def)
  from zero_apply_guard [OF this] z
  have "fst (writeFiles simple_path ''/repo'' [?e] (disk ?st) (coder_log ?st)) = Inr []"
    by (simp del: apply_patches.simps)
  then show ?thesis
    using z
    by (simp del: apply_patches.simps
        add: writeFiles_def writeFile_def Let_def simple_path_def one_file_def existsSync_def
          mkdirSync_def readFileSync_def writeFileSync_def)
qed






lemma js_split_found:
  "sep \<noteq> [] \<Longrightarrow> split_first sep s = Some (b, a) \<Longrightarrow> js_split sep s = b # js_split sep a"
  by (subst js_split.simps) simp

lemma js_split_not_found:
  "sep \<noteq> [] \<Longrightarrow> split_first sep s = None \<Longrightarrow> js_split sep s = [s]"
  by (subst js_split.simps) simp

lemma js_split_nonempty: "sep \<noteq> [] \<Longrightarrow> js_split sep s \<noteq> []"
  by (subst js_split.simps) (simp split: option.splits prod.splits)

lemma js_split_two_iff:
  assumes "sep \<noteq> []"
  shows "1 < length (js_split sep s) \<longleftrightarrow> js_includes s sep"
proof (cases "split_first sep s")
  case None
  with assms show ?thesis by (simp add: js_split_not_found js_includes_def)
next
  case (Some ba)
  then obtain b a where "split_first sep s = Some (b, a)" by (cases ba) simp
  with assms js_split_nonempty [OF assms, of a] show ?thesis
    by (cases "js_split sep a") (simp_all add: js_split_found js_includes_def)
qed

lemma js_split_three_iff:
  assumes "sep \<noteq> []"
  shows "1 < length (js_split sep s) - 1 \<longleftrightarrow> (\<exists>x y z. s = x @ sep @ y @ sep @ z)"
proof
  assume three: "1 < length (js_split sep s) - 1"
  then have "1 < length (js_split sep s)" by arith
  then have "js_includes s sep" using js_split_two_iff [OF assms, of s] by blast
  then obtain b a where ba: "split_first sep s = Some (b, a)" by (auto simp: js_includes_def)
  with three assms have "1 < length (js_split sep a)" by (simp add: js_split_found)
  then have "js_includes a sep" using js_split_two_iff [OF assms] by simp
  then obtain y z where "a = y @ sep @ z" by (auto simp: js_includes_iff)
  with split_first_SomeD [OF ba] show "\<exists>x y z. s = x @ sep @ y @ sep @ z" by auto
next
  assume "\<exists>x y z. s = x @ sep @ y @ sep @ z"
  then obtain x y z where s: "s = x @ sep @ y @ sep @ z" by blast
  then have "js_includes s sep" by (auto simp: js_includes_iff)
  then obtain b a where ba: "split_first sep s = Some (b, a)" by (auto simp: js_includes_def)
  have le: "length b \<le> length x" using split_first_least [OF ba s] .
  have sba: "s = b @ sep @ a" using split_first_SomeD [OF ba] .
  have "a = drop (length b + length sep) s" using sba by simp
  also have "\<dots> = drop (length b + length sep) (x @ sep @ y) @ sep @ z"
    using le by (simp add: s)
  finally have "a = drop (length b + length sep) (x @ sep @ y) @ sep @ z" .
  then have "js_includes a sep" unfolding js_includes_iff by blast
  then have "1 < length (js_split sep a)" using js_split_two_iff [OF assms] by simp
  with ba assms show "1 < length (js_split sep s) - 1" by (simp add: js_split_found)
qed

lemma apply_patch_found:
  assumes "search p = Some s" and "s \<noteq> []" and "replace p = Some r"
    and "split_first s c = Some (b, a)"
  shows "apply_patch fp p (c, n, lg) =
       (b @ js_get_substitution s b a r @ a, n + 1,
        if 1 < length (js_split s c) - 1
        then lg @ [Log_entry ''warn'' ''Patch search text not unique''
                     [(''path'', Str fp), (''occurrences'', Num (length (js_split s c) - 1))]]
        else lg)"
  using assms by (simp add: apply_patch_def truthy_def js_includes_def js_replace_def Let_def)

text \<open>
  What the loop does with a valid patch whose search text is found: the patch is applied at
  the first occurrence only (the text before it holds no earlier occurrence, the text after
  it is kept as it is), it counts as applied and the edit is written.  The ambiguity
  warning is logged exactly when \<^verbatim>\<open>split(search).length - 1\<close> exceeds one, that is when the
  search text occurs twice without overlap.
\<close>

lemma replace_first_occurrence:
  assumes s: "search p = Some s" and ne: "s \<noteq> []" and r: "replace p = Some r"
    and occ: "js_includes c s"
    and ex: "d (path_join np repoDir fp) = Some (File c)"
  shows "\<exists>b a. c = b @ s @ a \<and> (\<forall>b' a'. c = b' @ s @ a' \<longrightarrow> length b \<le> length b') \<and>
     apply_patch fp p (c, n, lg) =
       (b @ js_get_substitution s b a r @ a, n + 1,
        if 1 < length (js_split s c) - 1
        then lg @ [Log_entry ''warn'' ''Patch search text not unique''
                     [(''path'', Str fp), (''occurrences'', Num (length (js_split s c) - 1))]]
        else lg) \<and>
     (CHR ''$'' \<notin> set r \<longrightarrow> js_get_substitution s b a r = r) \<and>
     (1 < length (js_split s c) - 1 \<longleftrightarrow> (\<exists>x y z. c = x @ s @ y @ s @ z)) \<and>
     fst (writeFiles np repoDir
            [\<lparr>path = fp, action = Some ''modify'', patches = Some [p], content = None\<rparr>] d lg) = Inr [fp] \<and>
     fst (snd (writeFiles np repoDir
            [\<lparr>path = fp, action = Some ''modify'', patches = Some [p], content = None\<rparr>] d lg))
       (path_join np repoDir fp) = Some (File (b @ js_get_substitution s b a r @ a))"
proof -
  from occ obtain b a where ba: "split_first s c = Some (b, a)" by (auto simp: js_includes_def)
  let ?e = "\<lparr>path = fp, action = Some ''modify'', patches = Some [p], content = None\<rparr>"
  let ?st = "\<lparr>disk = d, coder_log = lg, written = []\<rparr>"
  let ?lg = "if 1 < length (js_split s c) - 1
        then lg @ [Log_entry ''warn'' ''Patch search text not unique''
                     [(''path'', Str fp), (''occurrences'', Num (length (js_split s c) - 1))]]
        else lg"
  have ap: "apply_patch fp p (c, n, lg) = (b @ js_get_substitution s b a r @ a, n + 1, ?lg)" for n
    by (rule apply_patch_found [OF s ne r ba])
  have 1: "action ?e = Some ''modify''" and 2: "patches ?e = Some [p]"
    and 3: "disk ?st (path_join np repoDir (path ?e)) = Some (File c)"
    and 4: "apply_patches (path ?e) [p] (c, 0, coder_log ?st) =
        (b @ js_get_substitution s b a r @ a, 1, ?lg)"
    using ex ap [of 0] by simp_all
  have wf: "writeFiles np repoDir [?e] d lg =
     (Inr [fp],
      (dir_ensured np repoDir fp d)(path_join np repoDir fp \<mapsto> File (b @ js_get_substitution s b a r @ a)),
      ?lg @ [Log_entry ''info'' ''Applied patches to file''
              [(''path'', Str fp), (''patchesApplied'', Num 1), (''totalPatches'', Num 1)]])"
    using writeFile_modify_existing [OF 1 2 3 4] by (simp add: writeFiles_def)
  have "c = b @ s @ a" by (rule split_first_SomeD [OF ba])
  moreover have "\<forall>b' a'. c = b' @ s @ a' \<longrightarrow> length b \<le> length b'"
    using split_first_least [OF ba] by blast
  moreover note ap [of n]
  moreover have "CHR ''$'' \<notin> set r \<longrightarrow> js_get_substitution s b a r = r"
    by (simp add: get_substitution_plain)
  moreover have "1 < length (js_split s c) - 1 \<longleftrightarrow> (\<exists>x y z. c = x @ s @ y @ s @ z)"
    by (rule js_split_three_iff [OF ne])
  moreover have "fst (writeFiles np repoDir [?e] d lg) = Inr [fp]" using wf by simp
  moreover have "fst (snd (writeFiles np repoDir [?e] d lg)) (path_join np repoDir fp) =
      Some (File (b @ js_get_substitution s b a r @ a))" using wf by simp
  ultimately show ?thesis by blast
qed

lemma replace_first_occurrence_example:
  "js_includes ''x=1; x=1;'' ''x=1'' \<and>
   apply_patch ''a.txt'' \<lparr>search = Some ''x=1'', replace = Some ''y''\<rparr> (''x=1; x=1;'', 0, []) =
     (''y; x=1;'', 1,
      [Log_entry ''warn'' ''Patch search text not unique''
         [(''path'', Str ''a.txt''), (''occurrences'', Num 2)]]) \<and>
   fst (writeFiles simple_path ''/repo''
          [\<lparr>path = ''a.txt'', action = Some ''modify'',
            patches = Some [\<lparr>search = Some ''x=1'', replace = Some ''y''\<rparr>], content = None\<rparr>]
          (one_file ''/repo/a.txt'' ''x=1; x=1;'') []) = Inr [''a.txt'']"
proof -
  let ?p = "\<lparr>search = Some ''x=1'', replace = Some ''y''\<rparr>"
  have 1: "search ?p = Some ''x=1''" and 2: "''x=1'' \<noteq> []" and 3: "replace ?p = Some ''y''"
    and 4: "js_includes ''x=1; x=1;'' ''x=1''"
    and 5: "one_file ''/repo/a.txt'' ''x=1; x=1;'' (path_join simple_path ''/repo'' ''a.txt'') =
        Some (File ''x=1; x=1;'')"
    by (simp_all add: js_includes_def simple_path_def one_file_def)
  from replace_first_occurrence [where d = "one_file ''/repo/a.txt'' ''x=1; x=1;''"
      and np = simple_path and repoDir = "''/repo''" and fp = "''a.txt''" and n = 0 and lg = "[]",
      OF 1 2 3 4 5]
  have "fst (writeFiles simple_path ''/repo''
          [\<lparr>path = ''a.txt'', action = Some ''modify'',
            patches = Some [?p], content = None\<rparr>]
          (one_file ''/repo/a.txt'' ''x=1; x=1;'') []) = Inr [''a.txt'']"
    by blast
  moreover have "apply_patch ''a.txt'' ?p (''x=1; x=1;'', 0, []) =
     (''y; x=1;'', 1,
      [Log_entry ''warn'' ''Patch search text not unique''
         [(''path'', Str ''a.txt''), (''occurrences'', Num 2)]])"
    by (simp add: apply_patch_def truthy_def js_includes_def js_replace_def js_split.simps Let_def)
  ultimately show ?thesis using 4 by simp
qed

text \<open>
  C6: the loop means to warn when the search text of a patch is not unique, and counts the
  occurrences by \<^verbatim>\<open>split\<close>, which misses occurrences that overlap.  \<^verbatim>\<open>aa\<close> occurs in
  \<^verbatim>\<open>aaa\<close> at the first and at the second character; the patch is applied at the first
  occurrence and the file is written, with no warning in the log.
\<close>

theorem overlapping_occurrences_no_warning:
  "''aaa'' = [] @ ''aa'' @ ''a'' \<and> ''aaa'' = ''a'' @ ''aa'' @ [] \<and>
   writeFiles simple_path ''/repo''
     [\<lparr>path = ''a.txt'', action = Some ''modify'',
       patches = Some [\<lparr>search = Some ''aa'', replace = Some ''b''\<rparr>], content = None\<rparr>]
     (one_file ''/repo/a.txt'' ''aaa'') [] =
     (Inr [''a.txt''],
      (one_file ''/repo/a.txt'' ''aaa'')(''/repo'' \<mapsto> Dir, ''/repo/a.txt'' \<mapsto> File ''ba''),
      [Log_entry ''info'' ''Applied patches to file''
         [(''path'', Str ''a.txt''), (''patchesApplied'', Num 1), (''totalPatches'', Num 1)]])"
  by (simp add: writeFiles_def writeFile_def Let_def simple_path_def one_file_def existsSync_def
      mkdirSync_def readFileSync_def writeFileSync_def apply_patch_def truthy_def js_includes_def
      js_replace_def js_split.simps)

section \<open>Truncation of a fetched file\<close>

lemma js_join_split: "sep \<noteq> [] \<Longrightarrow> js_join sep (js_split sep s) = s"
proof (induction sep s rule: js_split.induct)
  case (1 sep s)
  show ?case
  proof (cases "split_first sep s")
    case None
    with 1 show ?thesis by (simp add: js_split_not_found)
  next
    case (Some ba)
    then obtain b a where ba: "split_first sep s = Some (b, a)" by (cases ba) simp
    from "1.prems" obtain x xs where xs: "js_split sep a = x # xs"
      using js_split_nonempty [of sep a] by (cases "js_split sep a") auto
    from "1.IH" [OF "1.prems" ba refl "1.prems"] have "js_join sep (js_split sep a) = a" .
    with xs ba "1.prems" split_first_SomeD [OF ba] show ?thesis
      by (simp add: js_split_found)
  qed
qed

lemma nl_not_empty: "nl \<noteq> []"
  by (simp add: nl_def)

lemma split_first_line:
  "CHR 0x0A \<notin> set x \<Longrightarrow> split_first nl (x @ nl @ rest) = Some (x, rest)"
  by (induction x) (simp_all add: nl_def)

lemma split_first_no_line:
  "CHR 0x0A \<notin> set x \<Longrightarrow> split_first nl x = None"
  by (induction x) (simp_all add: nl_def)

lemma js_split_join_lines:
  "\<forall>l\<in>set (x # xs). CHR 0x0A \<notin> set l \<Longrightarrow> js_split nl (js_join nl (x # xs)) = x # xs"
proof (induction xs arbitrary: x)
  case Nil
  then show ?case by (simp add: js_split_not_found split_first_no_line nl_not_empty)
next
  case (Cons y ys)
  from Cons.prems have "split_first nl (x @ nl @ js_join nl (y # ys)) = Some (x, js_join nl (y # ys))"
    by (simp add: split_first_line)
  moreover from Cons have "js_split nl (js_join nl (y # ys)) = y # ys" by simp
  ultimately show ?case by (simp add: js_split_found nl_not_empty)
qed

lemma js_slice_head:
  "0 \<le> h \<Longrightarrow> h \<le> int (length xs) \<Longrightarrow> js_slice xs 0 h = take (nat h) xs"
  by (simp add: js_slice_def Let_def)

lemma js_slice_tail:
  "0 < h \<Longrightarrow> h \<le> int (length xs) \<Longrightarrow> js_slice_from xs (- h) = drop (length xs - nat h) xs"
  by (simp add: js_slice_from_def js_slice_def Let_def nat_diff_distrib')

lemma fetch_small:
  assumes "fs (path_join np repoDir fp) = Some (File src)"
    and "int (length (js_split nl src)) \<le> maxLines"
  shows "fetchExistingFileContent np fs repoDir fp maxLines = Inr (Some src)"
  using assms by (simp add: fetchExistingFileContent_def existsSync_def readFileSync_def Let_def)

lemma fetch_truncated:
  assumes "fs (path_join np repoDir fp) = Some (File src)"
    and "2 \<le> maxLines" and "maxLines < int (length (js_split nl src))"
  shows "fetchExistingFileContent np fs repoDir fp maxLines =
     Inr (Some (js_join nl (take (nat (maxLines div 2)) (js_split nl src)) @
       nl @ nl @ ''... ['' @ js_number_to_string (int (length (js_split nl src)) - maxLines) @
       '' lines truncated] ...'' @ nl @ nl @
       js_join nl (drop (length (js_split nl src) - nat (maxLines div 2)) (js_split nl src))))"
proof -
  from assms(2,3) have h: "0 < maxLines div 2" "0 \<le> maxLines div 2"
    "maxLines div 2 \<le> int (length (js_split nl src))" by simp_all
  from assms(1,3) show ?thesis
    by (simp add: fetchExistingFileContent_def existsSync_def readFileSync_def Let_def
        js_slice_head [OF h(2,3)] js_slice_tail [OF h(1,3)])
qed

lemma seven_hundred: "js_number_to_string 700 = ''700''"
  by (simp add: js_number_to_string_def string_of_nat.simps)

text \<open>
  C3 (amended): the lines of a file are the pieces between its newlines.  A file with no
  more lines than the budget is returned as it is.  A file with more lines than a budget
  of at least 2 is returned as its first \<open>budget div 2\<close> lines, a marker that states the
  line count minus the budget, and its last \<open>budget div 2\<close> lines.  A file of 1000 lines on
  the default budget of 300 keeps its first 150 and its last 150 lines, and the marker
  states 700.
\<close>

theorem fetch_truncation:
  assumes ex: "fs (path_join np repoDir fp) = Some (File src)"
  shows "js_join nl (js_split nl src) = src \<and>
    (int (length (js_split nl src)) \<le> maxLines \<longrightarrow>
       fetchExistingFileContent np fs repoDir fp maxLines = Inr (Some src)) \<and>
    (2 \<le> maxLines \<and> maxLines < int (length (js_split nl src)) \<longrightarrow>
       fetchExistingFileContent np fs repoDir fp maxLines =
         Inr (Some (js_join nl (take (nat (maxLines div 2)) (js_split nl src)) @
           nl @ nl @ ''... ['' @ js_number_to_string (int (length (js_split nl src)) - maxLines) @
           '' lines truncated] ...'' @ nl @ nl @
           js_join nl (drop (length (js_split nl src) - nat (maxLines div 2)) (js_split nl src))))) \<and>
    (length (js_split nl src) = 1000 \<longrightarrow>
       fetchExistingFileContent np fs repoDir fp default_maxLines =
         Inr (Some (js_join nl (take 150 (js_split nl src)) @
           nl @ nl @ ''... [700 lines truncated] ...'' @ nl @ nl @
           js_join nl (drop 850 (js_split nl src)))))"
proof (intro conjI impI)
  show "js_join nl (js_split nl src) = src"
    by (rule js_join_split) (rule nl_not_empty)
next
  assume "int (length (js_split nl src)) \<le> maxLines"
  with ex show "fetchExistingFileContent np fs repoDir fp maxLines = Inr (Some src)"
    by (simp add: fetch_small)
next
  assume "2 \<le> maxLines \<and> maxLines < int (length (js_split nl src))"
  then have "2 \<le> maxLines" "maxLines < int (length (js_split nl src))" by simp_all
  from fetch_truncated [where fs = fs and np = np and repoDir = repoDir and fp = fp, OF ex this]
  show "fetchExistingFileContent np fs repoDir fp maxLines =
         Inr (Some (js_join nl (take (nat (maxLines div 2)) (js_split nl src)) @
           nl @ nl @ ''... ['' @ js_number_to_string (int (length (js_split nl src)) - maxLines) @
           '' lines truncated] ...'' @ nl @ nl @
           js_join nl (drop (length (js_split nl src) - nat (maxLines div 2)) (js_split nl src))))" .
next
  assume len: "length (js_split nl src) = 1000"
  have "2 \<le> default_maxLines" "default_maxLines < int (length (js_split nl src))"
    by (simp_all add: default_maxLines_def len)
  from fetch_truncated [where fs = fs and np = np and repoDir = repoDir and fp = fp, OF ex this]
  show "fetchExistingFileContent np fs repoDir fp default_maxLines =
         Inr (Some (js_join nl (take 150 (js_split nl src)) @
           nl @ nl @ ''... [700 lines truncated] ...'' @ nl @ nl @
           js_join nl (drop 850 (js_split nl src))))"
    by (simp add: default_maxLines_def len seven_hundred)
qed

lemma lines_of_replicate:
  "CHR 0x0A \<notin> set x \<Longrightarrow> js_split nl (js_join nl (replicate (Suc n) x)) = replicate (Suc n) x"
  using js_split_join_lines [of x "replicate n x"] by simp

lemma lines_of_big_file: "js_split nl big_file = replicate 1000 ''x''"
proof -
  have "js_split nl (js_join nl (replicate (Suc 999) ''x'')) = replicate (Suc 999) ''x''"
    by (rule lines_of_replicate) simp
  moreover have "Suc 999 = 1000" by simp
  ultimately show ?thesis unfolding big_file_def by (simp only:)
qed

lemma fetch_big_file:
  "fetchExistingFileContent simple_path (one_file ''/repo/big.txt'' big_file) ''/repo'' ''big.txt'' 300 =
     Inr (Some (js_join nl (replicate 150 ''x'') @
       nl @ nl @ ''... [700 lines truncated] ...'' @ nl @ nl @
       js_join nl (replicate 150 ''x'')))"
proof -
  have ex: "one_file ''/repo/big.txt'' big_file (path_join simple_path ''/repo'' ''big.txt'') =
      Some (File big_file)"
    by (simp add: one_file_def simple_path_def)
  have "(2::int) \<le> 300" and "300 < int (length (js_split nl big_file))"
    by (simp_all add: lines_of_big_file)
  from fetch_truncated [where fs = "one_file ''/repo/big.txt'' big_file" and np = simple_path
      and repoDir = "''/repo''" and fp = "''big.txt''", OF ex this]
  show ?thesis by (simp add: lines_of_big_file seven_hundred)
qed

text \<open>
  C3 as stated fails on the number in the marker: for a file of 1000 lines and the budget
  300 the marker states 700 lines, not 850.
\<close>

theorem truncation_marker_states_700:
  "length (js_split nl big_file) = 1000 \<and>
   fetchExistingFileContent simple_path (one_file ''/repo/big.txt'' big_file) ''/repo'' ''big.txt''
       default_maxLines =
     Inr (Some (js_join nl (replicate 150 ''x'') @
       nl @ nl @ ''... [700 lines truncated] ...'' @ nl @ nl @
       js_join nl (replicate 150 ''x''))) \<and>
   fetchExistingFileContent simple_path (one_file ''/repo/big.txt'' big_file) ''/repo'' ''big.txt''
       default_maxLines \<noteq>
     Inr (Some (js_join nl (replicate 150 ''x'') @
       nl @ nl @ ''... [850 lines truncated] ...'' @ nl @ nl @
       js_join nl (replicate 150 ''x'')))"
  by (simp add: lines_of_big_file fetch_big_file default_maxLines_def)

theorem fetch_truncation_witness:
  "js_join nl (js_split nl big_file) = big_file \<and>
   fetchExistingFileContent simple_path (one_file ''/repo/big.txt'' big_file) ''/repo'' ''big.txt'' 1000 =
     Inr (Some big_file) \<and>
   fetchExistingFileContent simple_path (one_file ''/repo/big.txt'' big_file) ''/repo'' ''big.txt'' 4 =
     Inr (Some (js_join nl (replicate 2 ''x'') @
       nl @ nl @ ''... [996 lines truncated] ...'' @ nl @ nl @
       js_join nl (replicate 2 ''x''))) \<and>
   fetchExistingFileContent simple_path (one_file ''/repo/big.txt'' big_file) ''/repo'' ''big.txt''
       default_maxLines =
     Inr (Some (js_join nl (replicate 150 ''x'') @
       nl @ nl @ ''... [700 lines truncated] ...'' @ nl @ nl @
       js_join nl (replicate 150 ''x'')))"
proof -
  have ex: "one_file ''/repo/big.txt'' big_file (path_join simple_path ''/repo'' ''big.txt'') =
      Some (File big_file)"
    by (simp add: one_file_def simple_path_def)
  have n: "js_number_to_string 996 = ''996''"
    by (simp add: js_number_to_string_def string_of_nat.simps)
  note t = fetch_truncation [where fs = "one_file ''/repo/big.txt'' big_file" and np = simple_path
      and repoDir = "''/repo''" and fp = "''big.txt''", OF ex]
  from t [of 1000] t [of 4] show ?thesis
    by (simp add: lines_of_big_file n)
qed

section \<open>State transitions of the review engine\<close>

lemma pg_update_tickets_ok:
  "faults w = [] \<Longrightarrow> pg_update_tickets cond upd w =
     (Inr (map (upd (now w)) (filter cond (tickets w))),
      w\<lparr>tickets := map (\<lambda>t. if cond t then upd (now w) t else t) (tickets w)\<rparr>)"
  by (simp add: pg_update_tickets_def next_fault_def)

lemma notifyTicketStateChange_ok:
  "faults w = [] \<Longrightarrow> notifyTicketStateChange ticketId st pl w =
     (Inr (), w\<lparr>notifications := notifications w @
        [\<lparr>nt_ticket = ticketId, nt_state = st, nt_payload = pl\<rparr>]\<rparr>)"
  by (simp add: notifyTicketStateChange_def next_fault_def)

lemma emitEvent_ok:
  "faults w = [] \<Longrightarrow> emitEvent ticketId ty from to pl w =
     (Inr (), w\<lparr>events := events w @
        [\<lparr>ev_ticket = ticketId, ev_type = ty, from_state = from, to_state = to, ev_payload = pl\<rparr>]\<rparr>)"
  by (simp add: emitEvent_def next_fault_def)

lemma setMerged_ok:
  "faults w = [] \<Longrightarrow> setMerged ticketId prUrl w =
     (Inr (),
      w\<lparr>tickets := map (\<lambda>t. if ticket_id t = ticketId then merged_row (now w) t else t) (tickets w),
        notifications := notifications w @
          [\<lparr>nt_ticket = ticketId, nt_state = ''merged'', nt_payload = PrUrl prUrl\<rparr>],
        events := events w @
          [\<lparr>ev_ticket = ticketId, ev_type = ''merged'', from_state = ''reviewing'',
            to_state = ''merged'', ev_payload = PrUrl prUrl\<rparr>],
        engine_log := engine_log w @ [(''INFO'', ''[STATE] Ticket '' @ ticketId @ '' -> merged'')]\<rparr>)"
  by (simp add: setMerged_def bind_io_def pg_update_tickets_ok notifyTicketStateChange_ok
      emitEvent_ok log_line_def)

lemma setSentinelFailed_ok:
  "faults w = [] \<Longrightarrow> setSentinelFailed ticketId reason w =
     (Inr (),
      w\<lparr>tickets := map (\<lambda>t. if ticket_id t = ticketId then sentinel_failed_row (now w) t else t) (tickets w),
        notifications := notifications w @
          [\<lparr>nt_ticket = ticketId, nt_state = ''sentinel_failed'', nt_payload = Reason reason\<rparr>],
        events := events w @
          [\<lparr>ev_ticket = ticketId, ev_type = ''sentinel_failed'', from_state = ''reviewing'',
            to_state = ''sentinel_failed'', ev_payload = Reason reason\<rparr>],
        engine_log := engine_log w @
          [(''WARN'', ''[STATE] Ticket '' @ ticketId @ '' -> sentinel_failed: '' @ js_str reason)]\<rparr>)"
  by (simp add: setSentinelFailed_def bind_io_def pg_update_tickets_ok notifyTicketStateChange_ok
      emitEvent_ok log_line_def)

lemma rows_of_updated:
  "(\<And>t. ticket_id (upd t) = ticket_id t) \<Longrightarrow>
   rows_of ticketId (w\<lparr>tickets := map (\<lambda>t. if ticket_id t = ticketId then upd t else t) (tickets w)\<rparr>) =
     map upd (rows_of ticketId w)"
  by (induction "tickets w" arbitrary: w) (auto simp: rows_of_def filter_map comp_def intro: filter_cong)

text \<open>
  C10: when the calls to the store and to the observers succeed, \<^verbatim>\<open>setMerged\<close> and
  \<^verbatim>\<open>setSentinelFailed\<close> move every row with the given id to their state, whatever state
  the row was in, and the event they append records the from-state \<^verbatim>\<open>reviewing\<close>.
\<close>

theorem transitions_unconditional:
  assumes nf: "faults w = []"
  shows "fst (setMerged ticketId prUrl w) = Inr () \<and>
     rows_of ticketId (snd (setMerged ticketId prUrl w)) =
       map (merged_row (now w)) (rows_of ticketId w) \<and>
     map state (rows_of ticketId (snd (setMerged ticketId prUrl w))) =
       replicate (length (rows_of ticketId w)) ''merged'' \<and>
     events (snd (setMerged ticketId prUrl w)) = events w @
       [\<lparr>ev_ticket = ticketId, ev_type = ''merged'', from_state = ''reviewing'',
         to_state = ''merged'', ev_payload = PrUrl prUrl\<rparr>] \<and>
     fst (setSentinelFailed ticketId reason w) = Inr () \<and>
     rows_of ticketId (snd (setSentinelFailed ticketId reason w)) =
       map (sentinel_failed_row (now w)) (rows_of ticketId w) \<and>
     map state (rows_of ticketId (snd (setSentinelFailed ticketId reason w))) =
       replicate (length (rows_of ticketId w)) ''sentinel_failed'' \<and>
     events (snd (setSentinelFailed ticketId reason w)) = events w @
       [\<lparr>ev_ticket = ticketId, ev_type = ''sentinel_failed'', from_state = ''reviewing'',
         to_state = ''sentinel_failed'', ev_payload = Reason reason\<rparr>]"
proof -
  have m: "rows_of ticketId (snd (setMerged ticketId prUrl w)) =
       map (merged_row (now w)) (rows_of ticketId w)"
    using rows_of_updated [of "merged_row (now w)" ticketId w]
    by (simp add: setMerged_ok [OF nf] merged_row_def rows_of_def)
  have f: "rows_of ticketId (snd (setSentinelFailed ticketId reason w)) =
       map (sentinel_failed_row (now w)) (rows_of ticketId w)"
    using rows_of_updated [of "sentinel_failed_row (now w)" ticketId w]
    by (simp add: setSentinelFailed_ok [OF nf] sentinel_failed_row_def rows_of_def)
  have ms: "map state (map (merged_row (now w)) ts) = replicate (length ts) ''merged''" for ts
    by (induction ts) (simp_all add: merged_row_def)
  have fs: "map state (map (sentinel_failed_row (now w)) ts) =
      replicate (length ts) ''sentinel_failed''" for ts
    by (induction ts) (simp_all add: sentinel_failed_row_def)
  show ?thesis
    by (simp only: m f ms fs) (simp add: setMerged_ok [OF nf] setSentinelFailed_ok [OF nf])
qed

theorem transitions_unconditional_witness:
  "map state (tickets (snd (setMerged ''T1'' ''u''
       (store_with [ticket_T1\<lparr>state := ''sentinel_failed''\<rparr>] [])))) = [''merged''] \<and>
   map from_state (events (snd (setMerged ''T1'' ''u''
       (store_with [ticket_T1\<lparr>state := ''sentinel_failed''\<rparr>] [])))) = [''reviewing''] \<and>
   map state (tickets (snd (setSentinelFailed ''T1'' (Some ''late'')
       (store_with [ticket_T1\<lparr>state := ''merged''\<rparr>] [])))) = [''sentinel_failed''] \<and>
   map from_state (events (snd (setSentinelFailed ''T1'' (Some ''late'')
       (store_with [ticket_T1\<lparr>state := ''merged''\<rparr>] [])))) = [''reviewing'']"
proof -
  have 1: "faults (store_with [ticket_T1\<lparr>state := ''sentinel_failed''\<rparr>] []) = []"
    and 2: "faults (store_with [ticket_T1\<lparr>state := ''merged''\<rparr>] []) = []"
    by (simp_all add: store_with_def)
  from transitions_unconditional [OF 1, of "''T1''" "''u''" "Some ''late''"]
    transitions_unconditional [OF 2, of "''T1''" "''u''" "Some ''late''"]
  show ?thesis
    by (simp add: rows_of_def store_with_def ticket_T1_def setMerged_ok setSentinelFailed_ok
        merged_row_def sentinel_failed_row_def)
qed

section \<open>Claiming a ticket for review\<close>

lemma claimable_rows:
  "filter (claimable ticketId) (tickets w) =
     filter (\<lambda>t. state t = ''in_review'' \<and> assignee_id t = Some ''sentinel-agent'') (rows_of ticketId w)"
  unfolding rows_of_def filter_filter by (rule filter_cong) (auto simp: claimable_def)

lemma claim_row_not_claimable: "\<not> claimable ticketId (claim_row t0 t)"
  by (simp add: claimable_def claim_row_def)

lemma claimed_rows_not_claimable:
  "filter (claimable ticketId) (map (\<lambda>t. if claimable ticketId t then claim_row t0 t else t) ts) = []"
  by (induction ts) (simp_all add: claim_row_not_claimable)

lemma unclaimable_rows_unchanged:
  "filter (claimable ticketId) ts = [] \<Longrightarrow>
   map (\<lambda>t. if claimable ticketId t then claim_row t0 t else t) ts = ts"
  by (induction ts) (simp_all split: if_splits)

lemma claim_none:
  assumes "faults w = []" and "filter (claimable ticketId) (tickets w) = []"
  shows "atomicClaimReviewTicket ticketId w = (Inr None, w)"
  using assms
  by (simp add: atomicClaimReviewTicket_def bind_io_def return_io_def pg_update_tickets_ok
      unclaimable_rows_unchanged)

lemma claim_some:
  assumes "faults w = []" and "filter (claimable ticketId) (tickets w) = r # rs"
  shows "atomicClaimReviewTicket ticketId w =
     (Inr (Some (claim_row (now w) r)),
      w\<lparr>tickets := map (\<lambda>t. if claimable ticketId t then claim_row (now w) t else t) (tickets w),
        notifications := notifications w @
          [\<lparr>nt_ticket = ticketId, nt_state = ''reviewing'', nt_payload = Phase ''sentinel''\<rparr>],
        events := events w @
          [\<lparr>ev_ticket = ticketId, ev_type = ''sentinel_started'', from_state = ''in_review'',
            to_state = ''reviewing'', ev_payload = No_payload\<rparr>]\<rparr>)"
  using assms
  by (simp add: atomicClaimReviewTicket_def bind_io_def return_io_def pg_update_tickets_ok
      notifyTicketStateChange_ok emitEvent_ok)

lemma claim_attempts_none:
  assumes "faults w = []" and "filter (claimable ticketId) (tickets w) = []"
  shows "claim_attempts ticketId ts w =
     (replicate (length ts) (Inr None), if ts = [] then w else w\<lparr>now := last ts\<rparr>)"
  using assms
proof (induction ts arbitrary: w)
  case Nil
  then show ?case by simp
next
  case (Cons t0 ts)
  have "atomicClaimReviewTicket ticketId (w\<lparr>now := t0\<rparr>) = (Inr None, w\<lparr>now := t0\<rparr>)"
    using Cons.prems by (intro claim_none) simp_all
  moreover have "claim_attempts ticketId ts (w\<lparr>now := t0\<rparr>) =
     (replicate (length ts) (Inr None),
      if ts = [] then w\<lparr>now := t0\<rparr> else w\<lparr>now := t0\<rparr>\<lparr>now := last ts\<rparr>)"
    using Cons.prems by (intro Cons.IH) simp_all
  ultimately show ?case by simp
qed

lemma rows_of_claimed:
  "rows_of ticketId (w\<lparr>tickets := map (\<lambda>t. if claimable ticketId t then claim_row t0 t else t) (tickets w)\<rparr>) =
     map (\<lambda>t. if claimable ticketId t then claim_row t0 t else t) (rows_of ticketId w)"
proof -
  have "filter (\<lambda>t. ticket_id t = ticketId) (map (\<lambda>t. if claimable ticketId t then claim_row t0 t else t) ts) =
      map (\<lambda>t. if claimable ticketId t then claim_row t0 t else t) (filter (\<lambda>t. ticket_id t = ticketId) ts)" for ts
    by (induction ts) (simp_all add: claim_row_def)
  then show ?thesis by (simp add: rows_of_def)
qed

text \<open>
  C1: on a store whose calls succeed and that holds one row for the ticket, a claim of a
  ticket in review that is assigned to the sentinel agent sets the state to
  \<^verbatim>\<open>reviewing\<close>, the slot to \<open>-1\<close>, the heartbeat and the update time to the store's clock,
  appends the \<^verbatim>\<open>sentinel_started\<close> event and returns the updated row; any other ticket, a
  claimed one among them, gets null and the engine is left as it was.  So in a sequence of
  claim attempts on a claimable ticket the first succeeds and every later one returns null
  and changes nothing.
\<close>

theorem claim_for_review_exclusive:
  assumes nf: "faults w = []" and row: "rows_of ticketId w = [t]"
  shows "(state t = ''in_review'' \<and> assignee_id t = Some ''sentinel-agent'' \<longrightarrow>
      (\<exists>w'. atomicClaimReviewTicket ticketId w = (Inr (Some (claim_row (now w) t)), w') \<and>
         rows_of ticketId w' = [claim_row (now w) t] \<and>
         events w' = events w @
           [\<lparr>ev_ticket = ticketId, ev_type = ''sentinel_started'', from_state = ''in_review'',
             to_state = ''reviewing'', ev_payload = No_payload\<rparr>]) \<and>
      state (claim_row (now w) t) = ''reviewing'' \<and> vm_id (claim_row (now w) t) = Some (- 1) \<and>
      last_heartbeat (claim_row (now w) t) = Some (now w) \<and> updated_at (claim_row (now w) t) = now w \<and>
      (\<exists>r w1. atomicClaimReviewTicket ticketId (w\<lparr>now := t0\<rparr>) = (Inr (Some r), w1) \<and>
         claim_attempts ticketId (t0 # ts) w =
           (Inr (Some r) # replicate (length ts) (Inr None), w1\<lparr>now := last (t0 # ts)\<rparr>))) \<and>
    (\<not> (state t = ''in_review'' \<and> assignee_id t = Some ''sentinel-agent'') \<longrightarrow>
      atomicClaimReviewTicket ticketId w = (Inr None, w) \<and>
      claim_attempts ticketId ts w =
        (replicate (length ts) (Inr None), if ts = [] then w else w\<lparr>now := last ts\<rparr>))"
proof (intro conjI impI)
  assume g: "state t = ''in_review'' \<and> assignee_id t = Some ''sentinel-agent''"
  then have f: "filter (claimable ticketId) (tickets w) = [t]"
    by (simp add: claimable_rows row)
  let ?upd = "\<lambda>t0 t. if claimable ticketId t then claim_row t0 t else t"
  have ct: "claimable ticketId t"
  proof -
    from f have "t \<in> set (filter (claimable ticketId) (tickets w))" by simp
    then show ?thesis by simp
  qed
  let ?w' = "w\<lparr>tickets := map (?upd (now w)) (tickets w),
        notifications := notifications w @
          [\<lparr>nt_ticket = ticketId, nt_state = ''reviewing'', nt_payload = Phase ''sentinel''\<rparr>],
        events := events w @
          [\<lparr>ev_ticket = ticketId, ev_type = ''sentinel_started'', from_state = ''in_review'',
            to_state = ''reviewing'', ev_payload = No_payload\<rparr>]\<rparr>"
  have c: "atomicClaimReviewTicket ticketId w = (Inr (Some (claim_row (now w) t)), ?w')"
    by (rule claim_some [OF nf f])
  have r: "rows_of ticketId ?w' = [claim_row (now w) t]"
    using rows_of_claimed [of ticketId "now w" w] ct by (simp add: rows_of_def row [unfolded rows_of_def])
  from c r show "\<exists>w'. atomicClaimReviewTicket ticketId w = (Inr (Some (claim_row (now w) t)), w') \<and>
         rows_of ticketId w' = [claim_row (now w) t] \<and>
         events w' = events w @
           [\<lparr>ev_ticket = ticketId, ev_type = ''sentinel_started'', from_state = ''in_review'',
             to_state = ''reviewing'', ev_payload = No_payload\<rparr>]"
    by (intro exI [of _ ?w']) simp
  show "state (claim_row (now w) t) = ''reviewing''" "vm_id (claim_row (now w) t) = Some (- 1)"
    "last_heartbeat (claim_row (now w) t) = Some (now w)" "updated_at (claim_row (now w) t) = now w"
    by (simp_all add: claim_row_def)
  let ?v = "w\<lparr>now := t0\<rparr>"
  let ?w1 = "?v\<lparr>tickets := map (?upd t0) (tickets w),
        notifications := notifications w @
          [\<lparr>nt_ticket = ticketId, nt_state = ''reviewing'', nt_payload = Phase ''sentinel''\<rparr>],
        events := events w @
          [\<lparr>ev_ticket = ticketId, ev_type = ''sentinel_started'', from_state = ''in_review'',
            to_state = ''reviewing'', ev_payload = No_payload\<rparr>]\<rparr>"
  have c1: "atomicClaimReviewTicket ticketId ?v = (Inr (Some (claim_row t0 t)), ?w1)"
    using claim_some [of ?v ticketId t "[]"] nf f by simp
  have rest: "claim_attempts ticketId ts ?w1 =
     (replicate (length ts) (Inr None), if ts = [] then ?w1 else ?w1\<lparr>now := last ts\<rparr>)"
    by (rule claim_attempts_none) (simp_all add: nf claimed_rows_not_claimable)
  have "claim_attempts ticketId (t0 # ts) w =
           (Inr (Some (claim_row t0 t)) # replicate (length ts) (Inr None), ?w1\<lparr>now := last (t0 # ts)\<rparr>)"
    by (simp add: c1 rest)
  with c1 show "\<exists>r w1. atomicClaimReviewTicket ticketId (w\<lparr>now := t0\<rparr>) = (Inr (Some r), w1) \<and>
         claim_attempts ticketId (t0 # ts) w =
           (Inr (Some r) # replicate (length ts) (Inr None), w1\<lparr>now := last (t0 # ts)\<rparr>)"
    by blast
next
  assume g: "\<not> (state t = ''in_review'' \<and> assignee_id t = Some ''sentinel-agent'')"
  then have f: "filter (claimable ticketId) (tickets w) = []"
    by (simp add: claimable_rows row)
  show "atomicClaimReviewTicket ticketId w = (Inr None, w)"
    by (rule claim_none [OF nf f])
  show "claim_attempts ticketId ts w =
        (replicate (length ts) (Inr None), if ts = [] then w else w\<lparr>now := last ts\<rparr>)"
    by (rule claim_attempts_none [OF nf f])
qed

theorem claim_for_review_exclusive_witness:
  "rows_of ''T1'' (store_with [ticket_T1] []) = [ticket_T1] \<and>
   fst (atomicClaimReviewTicket ''T1'' (store_with [ticket_T1] [])) = Inr (Some (claim_row 7 ticket_T1)) \<and>
   map state (tickets (snd (atomicClaimReviewTicket ''T1'' (store_with [ticket_T1] [])))) = [''reviewing''] \<and>
   map vm_id (tickets (snd (atomicClaimReviewTicket ''T1'' (store_with [ticket_T1] [])))) = [Some (- 1)] \<and>
   fst (claim_attempts ''T1'' [7, 8, 9] (store_with [ticket_T1] [])) =
     [Inr (Some (claim_row 7 ticket_T1)), Inr None, Inr None] \<and>
   state (claim_row 7 ticket_T1) = ''reviewing'' \<and> vm_id (claim_row 7 ticket_T1) = Some (- 1) \<and>
   atomicClaimReviewTicket ''T1'' (store_with [claim_row 7 ticket_T1] []) =
     (Inr None, store_with [claim_row 7 ticket_T1] [])"
proof -
  have 1: "faults (store_with [ticket_T1] []) = []"
    and 2: "rows_of ''T1'' (store_with [ticket_T1] []) = [ticket_T1]"
    and 3: "faults (store_with [claim_row 7 ticket_T1] []) = []"
    and 4: "rows_of ''T1'' (store_with [claim_row 7 ticket_T1] []) = [claim_row 7 ticket_T1]"
    and 5: "state ticket_T1 = ''in_review'' \<and> assignee_id ticket_T1 = Some ''sentinel-agent''"
    and 6: "\<not> (state (claim_row 7 ticket_T1) = ''in_review'' \<and>
              assignee_id (claim_row 7 ticket_T1) = Some ''sentinel-agent'')"
    and 7: "now (store_with [ticket_T1] []) = 7"
    by (simp_all add: store_with_def rows_of_def ticket_T1_def claim_row_def)
  from claim_for_review_exclusive [OF 1 2, of 7 "[8, 9]"] 5 7
  have a: "\<exists>w'. atomicClaimReviewTicket ''T1'' (store_with [ticket_T1] []) =
         (Inr (Some (claim_row 7 ticket_T1)), w') \<and> rows_of ''T1'' w' = [claim_row 7 ticket_T1]"
    and b: "\<exists>r w1. atomicClaimReviewTicket ''T1'' (store_with [ticket_T1] []\<lparr>now := 7\<rparr>) = (Inr (Some r), w1) \<and>
         claim_attempts ''T1'' [7, 8, 9] (store_with [ticket_T1] []) =
           (Inr (Some r) # replicate (length [8, 9::nat]) (Inr None), w1\<lparr>now := last [7, 8, 9]\<rparr>)"
    by auto
  have same: "store_with [ticket_T1] []\<lparr>now := 7\<rparr> = store_with [ticket_T1] []"
    by (simp add: store_with_def)
  from a obtain w' where w': "atomicClaimReviewTicket ''T1'' (store_with [ticket_T1] []) =
         (Inr (Some (claim_row 7 ticket_T1)), w')" "rows_of ''T1'' w' = [claim_row 7 ticket_T1]"
    by blast
  have tk: "tickets w' = [claim_row 7 ticket_T1]"
    using w'(1) claim_some [of "store_with [ticket_T1] []" "''T1''" ticket_T1 "[]"]
    by (simp add: store_with_def claimable_def ticket_T1_def)
  from b w'(1) have c: "fst (claim_attempts ''T1'' [7, 8, 9] (store_with [ticket_T1] [])) =
     [Inr (Some (claim_row 7 ticket_T1)), Inr None, Inr None]"
    by (auto simp: same)
  from claim_for_review_exclusive [OF 3 4, of 0 "[]"] 6
  have d: "atomicClaimReviewTicket ''T1'' (store_with [claim_row 7 ticket_T1] []) =
     (Inr None, store_with [claim_row 7 ticket_T1] [])"
    by blast
  show ?thesis
    using 2 w'(1) tk c d by (simp add: claim_row_def)
qed

section \<open>The pattern of a pull-request URL\<close>

lemma strip_prefix_Some: "strip_prefix p s = Some r \<longleftrightarrow> s = p @ r"
  by (auto simp: strip_prefix_def prefix_def)

lemma match_pr_here_sound:
  assumes "match_pr_here s = Some (owner, repo, num)"
  shows "\<exists>rest. s = ''github.com/'' @ owner @ ''/'' @ repo @ ''/pull/'' @ num @ rest \<and>
     owner \<noteq> [] \<and> CHR ''/'' \<notin> set owner \<and> repo \<noteq> [] \<and> CHR ''/'' \<notin> set repo \<and>
     num \<noteq> [] \<and> set num \<subseteq> set ''0123456789''"
proof -
  from assms obtain r1 where r1: "strip_prefix ''github.com/'' s = Some r1"
    by (auto simp: match_pr_here_def split: option.splits)
  with assms have o: "owner = takeWhile not_slash r1" "owner \<noteq> []"
    by (auto simp: match_pr_here_def Let_def split: option.splits if_splits)
  with assms r1 obtain r2 where r2: "strip_prefix ''/'' (dropWhile not_slash r1) = Some r2"
    by (auto simp: match_pr_here_def Let_def split: option.splits if_splits)
  with assms r1 o have r: "repo = takeWhile not_slash r2" "repo \<noteq> []"
    by (auto simp: match_pr_here_def Let_def split: option.splits if_splits)
  with assms r1 o r2 obtain r3 where r3: "strip_prefix ''/pull/'' (dropWhile not_slash r2) = Some r3"
    by (auto simp: match_pr_here_def Let_def split: option.splits if_splits)
  with assms r1 o r2 r have n: "num = takeWhile is_digit r3" "num \<noteq> []"
    by (auto simp: match_pr_here_def Let_def split: option.splits if_splits)
  have s1: "s = ''github.com/'' @ r1" using r1 by (simp only: strip_prefix_Some)
  have s2: "dropWhile not_slash r1 = ''/'' @ r2" using r2 by (simp only: strip_prefix_Some)
  have s3: "dropWhile not_slash r2 = ''/pull/'' @ r3" using r3 by (simp only: strip_prefix_Some)
  have "r1 = owner @ dropWhile not_slash r1" by (simp add: o)
  moreover have "r2 = repo @ dropWhile not_slash r2" by (simp add: r)
  moreover have "r3 = num @ dropWhile is_digit r3" by (simp add: n)
  ultimately have "s = ''github.com/'' @ owner @ ''/'' @ repo @ ''/pull/'' @ num @ dropWhile is_digit r3"
    using s1 s2 s3 by (metis append_assoc)
  moreover have "CHR ''/'' \<notin> set owner"
    using set_takeWhileD [of "CHR ''/''" not_slash r1] by (auto simp: o not_slash_def)
  moreover have "CHR ''/'' \<notin> set repo"
    using set_takeWhileD [of "CHR ''/''" not_slash r2] by (auto simp: r not_slash_def)
  moreover have "set num \<subseteq> set ''0123456789''"
  proof
    fix c assume "c \<in> set num"
    then have "is_digit c" unfolding n by (rule set_takeWhileD [THEN conjunct2])
    then show "c \<in> set ''0123456789''" by (simp only: is_digit_def)
  qed
  ultimately show ?thesis using o(2) r(2) n(2) by blast
qed

lemma takeWhile_run:
  "\<forall>c\<in>set xs. P c \<Longrightarrow> \<not> P y \<Longrightarrow> takeWhile P (xs @ y # ys) = xs \<and> dropWhile P (xs @ y # ys) = y # ys"
  by (induction xs) simp_all

lemma match_pr_here_complete:
  assumes "owner \<noteq> []" and "CHR ''/'' \<notin> set owner" and "repo \<noteq> []" and "CHR ''/'' \<notin> set repo"
    and "num \<noteq> []" and "set num \<subseteq> set ''0123456789''"
  shows "match_pr_here (''github.com/'' @ owner @ ''/'' @ repo @ ''/pull/'' @ num @ rest) \<noteq> None"
proof -
  have 1: "strip_prefix ''github.com/'' (''github.com/'' @ owner @ ''/'' @ repo @ ''/pull/'' @ num @ rest) =
      Some (owner @ ''/'' @ repo @ ''/pull/'' @ num @ rest)"
    by (simp only: strip_prefix_Some)
  have 2: "takeWhile not_slash (owner @ CHR ''/'' # (repo @ ''/pull/'' @ num @ rest)) = owner \<and>
      dropWhile not_slash (owner @ CHR ''/'' # (repo @ ''/pull/'' @ num @ rest)) =
        CHR ''/'' # (repo @ ''/pull/'' @ num @ rest)"
    using assms(2) by (intro takeWhile_run) (auto simp: not_slash_def)
  have 3: "takeWhile not_slash (repo @ CHR ''/'' # (''pull/'' @ num @ rest)) = repo \<and>
      dropWhile not_slash (repo @ CHR ''/'' # (''pull/'' @ num @ rest)) =
        CHR ''/'' # (''pull/'' @ num @ rest)"
    using assms(4) by (intro takeWhile_run) (auto simp: not_slash_def)
  obtain d ds where d: "num = d # ds" using assms(5) by (cases num) auto
  with assms(6) have "is_digit d" by (simp only: is_digit_def) auto
  then have 4: "takeWhile is_digit (num @ rest) \<noteq> []" by (simp add: d)
  from 2 3 4 assms(1,3) show ?thesis
    by (simp add: match_pr_here_def strip_prefix_def Let_def)
qed

lemma match_pr_url_sound:
  "match_pr_url s = Some m \<Longrightarrow> \<exists>pre s'. s = pre @ s' \<and> match_pr_here s' = Some m"
proof (induction s)
  case Nil
  then show ?case by simp
next
  case (Cons c cs)
  show ?case
  proof (cases "match_pr_here (c # cs)")
    case None
    with Cons obtain pre s' where "cs = pre @ s'" "match_pr_here s' = Some m" by auto
    then have "c # cs = (c # pre) @ s' \<and> match_pr_here s' = Some m" by simp
    then show ?thesis by blast
  next
    case (Some a)
    with Cons.prems have "c # cs = [] @ (c # cs) \<and> match_pr_here (c # cs) = Some m" by simp
    then show ?thesis by blast
  qed
qed

lemma match_pr_url_complete:
  "match_pr_here s' \<noteq> None \<Longrightarrow> match_pr_url (pre @ s') \<noteq> None"
proof (induction pre)
  case Nil
  then show ?case by (cases s') (auto split: option.splits)
next
  case (Cons c pre)
  then show ?case by (auto split: option.splits)
qed

lemma match_pr_url_None_iff:
  "match_pr_url s = None \<longleftrightarrow>
     \<not> (\<exists>pre owner repo num rest.
          s = pre @ ''github.com/'' @ owner @ ''/'' @ repo @ ''/pull/'' @ num @ rest \<and>
          owner \<noteq> [] \<and> CHR ''/'' \<notin> set owner \<and> repo \<noteq> [] \<and> CHR ''/'' \<notin> set repo \<and>
          num \<noteq> [] \<and> set num \<subseteq> set ''0123456789'')"
proof
  assume none: "match_pr_url s = None"
  show "\<not> (\<exists>pre owner repo num rest.
          s = pre @ ''github.com/'' @ owner @ ''/'' @ repo @ ''/pull/'' @ num @ rest \<and>
          owner \<noteq> [] \<and> CHR ''/'' \<notin> set owner \<and> repo \<noteq> [] \<and> CHR ''/'' \<notin> set repo \<and>
          num \<noteq> [] \<and> set num \<subseteq> set ''0123456789'')"
  proof
    assume "\<exists>pre owner repo num rest.
          s = pre @ ''github.com/'' @ owner @ ''/'' @ repo @ ''/pull/'' @ num @ rest \<and>
          owner \<noteq> [] \<and> CHR ''/'' \<notin> set owner \<and> repo \<noteq> [] \<and> CHR ''/'' \<notin> set repo \<and>
          num \<noteq> [] \<and> set num \<subseteq> set ''0123456789''"
    then obtain pre owner repo num rest where
      s: "s = pre @ (''github.com/'' @ owner @ ''/'' @ repo @ ''/pull/'' @ num @ rest)"
      and c: "owner \<noteq> []" "CHR ''/'' \<notin> set owner" "repo \<noteq> []" "CHR ''/'' \<notin> set repo"
        "num \<noteq> []" "set num \<subseteq> set ''0123456789''"
      by auto
    from match_pr_url_complete [OF match_pr_here_complete [OF c], of pre rest] none s
    show False by simp
  qed
next
  assume no: "\<not> (\<exists>pre owner repo num rest.
          s = pre @ ''github.com/'' @ owner @ ''/'' @ repo @ ''/pull/'' @ num @ rest \<and>
          owner \<noteq> [] \<and> CHR ''/'' \<notin> set owner \<and> repo \<noteq> [] \<and> CHR ''/'' \<notin> set repo \<and>
          num \<noteq> [] \<and> set num \<subseteq> set ''0123456789'')"
  show "match_pr_url s = None"
  proof (rule ccontr)
    assume "match_pr_url s \<noteq> None"
    then obtain owner repo num where "match_pr_url s = Some (owner, repo, num)" by auto
    then obtain pre s' where p: "s = pre @ s'" "match_pr_here s' = Some (owner, repo, num)"
      using match_pr_url_sound by blast
    from match_pr_here_sound [OF p(2)] p(1) no show False by blast
  qed
qed

section \<open>Merging a pull request\<close>

lemma setMerged_rows_state:
  assumes "faults w = []"
  shows "map state (rows_of ticketId (snd (setMerged ticketId prUrl w))) =
     replicate (length (rows_of ticketId w)) ''merged''"
proof -
  have "rows_of ticketId (snd (setMerged ticketId prUrl w)) =
       map (merged_row (now w)) (rows_of ticketId w)"
    using rows_of_updated [of "merged_row (now w)" ticketId w]
    by (simp add: setMerged_ok [OF assms] merged_row_def rows_of_def)
  moreover have "map state (map (merged_row (now w)) ts) = replicate (length ts) ''merged''" for ts
    by (induction ts) (simp_all add: merged_row_def)
  ultimately show ?thesis by simp
qed

text \<open>
  C7: a URL matches the pattern of \<^verbatim>\<open>mergePR\<close> when it holds \<^verbatim>\<open>github.com/\<close>, an owner
  and a repository without slash, \<^verbatim>\<open>/pull/\<close> and a number.  On every other URL \<^verbatim>\<open>mergePR\<close>
  throws \<^verbatim>\<open>Invalid PR URL\<close> and leaves the engine as it was: no command has been run, no
  row has changed, nothing is tried again.
\<close>

theorem invalid_pr_url_rejected:
  "(match_pr_url prUrl = None \<longleftrightarrow>
     \<not> (\<exists>pre owner repo num rest.
          prUrl = pre @ ''github.com/'' @ owner @ ''/'' @ repo @ ''/pull/'' @ num @ rest \<and>
          owner \<noteq> [] \<and> CHR ''/'' \<notin> set owner \<and> repo \<noteq> [] \<and> CHR ''/'' \<notin> set repo \<and>
          num \<noteq> [] \<and> set num \<subseteq> set ''0123456789'')) \<and>
   (match_pr_url prUrl = None \<longrightarrow>
      mergePR ev ticketId prUrl branchName w = (Inl (Error (''Invalid PR URL: '' @ prUrl)), w))"
proof (intro conjI impI)
  show "match_pr_url prUrl = None \<longleftrightarrow>
     \<not> (\<exists>pre owner repo num rest.
          prUrl = pre @ ''github.com/'' @ owner @ ''/'' @ repo @ ''/pull/'' @ num @ rest \<and>
          owner \<noteq> [] \<and> CHR ''/'' \<notin> set owner \<and> repo \<noteq> [] \<and> CHR ''/'' \<notin> set repo \<and>
          num \<noteq> [] \<and> set num \<subseteq> set ''0123456789'')"
    by (rule match_pr_url_None_iff)
next
  assume "match_pr_url prUrl = None"
  then show "mergePR ev ticketId prUrl branchName w = (Inl (Error (''Invalid PR URL: '' @ prUrl)), w)"
    by (simp add: mergePR_def)
qed

theorem invalid_pr_url_rejected_witness:
  "match_pr_url ''https://example.org/acme/widgets/merge/42'' = None \<and>
   mergePR (env_of (Inl (Error ''unused'')) (Inr ())) ''T1'' ''https://example.org/acme/widgets/merge/42''
       (Some ''swarm/T1'') (store_with [ticket_T1\<lparr>state := ''reviewing''\<rparr>] []) =
     (Inl (Error ''Invalid PR URL: https://example.org/acme/widgets/merge/42''),
      store_with [ticket_T1\<lparr>state := ''reviewing''\<rparr>] [])"
proof -
  have n: "match_pr_url ''https://example.org/acme/widgets/merge/42'' = None"
    by (simp add: match_pr_here_def strip_prefix_def)
  from invalid_pr_url_rejected [of "''https://example.org/acme/widgets/merge/42''"
      "env_of (Inl (Error ''unused'')) (Inr ())" "''T1''" "Some ''swarm/T1''"
      "store_with [ticket_T1\<lparr>state := ''reviewing''\<rparr>] []"] n
  show ?thesis by simp
qed

text \<open>
  C2: when the merge command fails and the message or the error stream of the failure
  holds \<^verbatim>\<open>already been merged\<close>, \<^verbatim>\<open>mergePR\<close> logs that and goes on with \<^verbatim>\<open>setMerged\<close>, as
  it does after a merge that succeeded; with the store calls succeeding it returns
  normally and every row of the ticket is in state \<^verbatim>\<open>merged\<close>.
\<close>

theorem already_merged_is_success:
  assumes m: "match_pr_url prUrl = Some (owner, repo, prNumber)"
    and x: "execSync ev (''gh pr merge '' @ prNumber @ '' --repo '' @ owner @ ''/'' @ repo @
              '' --squash --delete-branch'') = Inl err"
    and a: "(\<exists>m. message err = Some m \<and> js_includes m ''already been merged'') \<or>
            (\<exists>s. stderr err = Some s \<and> js_includes s ''already been merged'')"
  shows "mergePR ev ticketId prUrl branchName w =
      setMerged ticketId prUrl
        (log_line ''INFO'' (''[MERGE] PR #'' @ prNumber @ '' was already merged'')
          ((log_line ''INFO'' (''[MERGE] Merging PR #'' @ prNumber @ '' in '' @ owner @ ''/'' @ repo) w)
             \<lparr>commands := commands w @
                [''gh pr merge '' @ prNumber @ '' --repo '' @ owner @ ''/'' @ repo @
                 '' --squash --delete-branch'']\<rparr>)) \<and>
     (faults w = [] \<longrightarrow>
        fst (mergePR ev ticketId prUrl branchName w) = Inr () \<and>
        map state (rows_of ticketId (snd (mergePR ev ticketId prUrl branchName w))) =
          replicate (length (rows_of ticketId w)) ''merged'')"
proof -
  let ?w1 = "log_line ''INFO'' (''[MERGE] PR #'' @ prNumber @ '' was already merged'')
          ((log_line ''INFO'' (''[MERGE] Merging PR #'' @ prNumber @ '' in '' @ owner @ ''/'' @ repo) w)
             \<lparr>commands := commands w @
                [''gh pr merge '' @ prNumber @ '' --repo '' @ owner @ ''/'' @ repo @
                 '' --squash --delete-branch'']\<rparr>)"
  from a have am: "already_merged err" by (auto simp: already_merged_def)
  have eq: "mergePR ev ticketId prUrl branchName w = setMerged ticketId prUrl ?w1"
    using m x am
    by (simp add: mergePR_def Let_def try_catch_def bind_io_def run_execSync_def log_line_def)
  have "faults w = [] \<longrightarrow>
        fst (setMerged ticketId prUrl ?w1) = Inr () \<and>
        map state (rows_of ticketId (snd (setMerged ticketId prUrl ?w1))) =
          replicate (length (rows_of ticketId w)) ''merged''"
  proof
    assume nf: "faults w = []"
    then have nf1: "faults ?w1 = []" by (simp add: log_line_def)
    have r: "rows_of ticketId ?w1 = rows_of ticketId w" by (simp add: rows_of_def log_line_def)
    have f1: "fst (setMerged ticketId prUrl ?w1) = Inr ()"
      using setMerged_ok [OF nf1, of ticketId prUrl] by simp
    have f2: "map state (rows_of ticketId (snd (setMerged ticketId prUrl ?w1))) =
        replicate (length (rows_of ticketId ?w1)) ''merged''"
      by (rule setMerged_rows_state [OF nf1])
    from f1 f2 [unfolded r]
    show "fst (setMerged ticketId prUrl ?w1) = Inr () \<and>
        map state (rows_of ticketId (snd (setMerged ticketId prUrl ?w1))) =
          replicate (length (rows_of ticketId w)) ''merged''"
      by (rule conjI)
  qed
  with eq show ?thesis by (simp only:)
qed

theorem already_merged_is_success_witness:
  "match_pr_url ''https://github.com/acme/widgets/pull/42'' = Some (''acme'', ''widgets'', ''42'') \<and>
   js_includes ''Pull request #42 has already been merged'' ''already been merged'' \<and>
   fst (mergePR
      (env_of (Inl (Error ''unused''))
         (Inl \<lparr>message = Some ''Command failed: gh pr merge 42'',
               stderr = Some ''Pull request #42 has already been merged''\<rparr>))
      ''T1'' ''https://github.com/acme/widgets/pull/42'' (Some ''swarm/T1'')
      (store_with [ticket_T1\<lparr>state := ''reviewing''\<rparr>] [])) = Inr () \<and>
   map state (tickets (snd (mergePR
      (env_of (Inl (Error ''unused''))
         (Inl \<lparr>message = Some ''Command failed: gh pr merge 42'',
               stderr = Some ''Pull request #42 has already been merged''\<rparr>))
      ''T1'' ''https://github.com/acme/widgets/pull/42'' (Some ''swarm/T1'')
      (store_with [ticket_T1\<lparr>state := ''reviewing''\<rparr>] [])))) = [''merged'']"
proof -
  let ?err = "\<lparr>message = Some ''Command failed: gh pr merge 42'',
               stderr = Some ''Pull request #42 has already been merged''\<rparr>"
  let ?ev = "env_of (Inl (Error ''unused'')) (Inl ?err)"
  let ?w = "store_with [ticket_T1\<lparr>state := ''reviewing''\<rparr>] []"
  have m: "match_pr_url ''https://github.com/acme/widgets/pull/42'' = Some (''acme'', ''widgets'', ''42'')"
    by (simp add: match_pr_here_def strip_prefix_def not_slash_def is_digit_def)
  have x: "execSync ?ev (''gh pr merge '' @ ''42'' @ '' --repo '' @ ''acme'' @ ''/'' @ ''widgets'' @
              '' --squash --delete-branch'') = Inl ?err"
    by (simp add: env_of_def)
  have inc: "js_includes ''Pull request #42 has already been merged'' ''already been merged''"
    by (simp add: js_includes_def)
  then have a: "(\<exists>m. message ?err = Some m \<and> js_includes m ''already been merged'') \<or>
            (\<exists>s. stderr ?err = Some s \<and> js_includes s ''already been merged'')"
    by simp
  have nf: "faults ?w = []" by (simp add: store_with_def)
  have rw: "rows_of ''T1'' ?w = tickets ?w"
    by (simp add: rows_of_def store_with_def ticket_T1_def)
  from already_merged_is_success [OF m x a, of "''T1''" "Some ''swarm/T1''" ?w] nf
  have r: "mergePR ?ev ''T1'' ''https://github.com/acme/widgets/pull/42'' (Some ''swarm/T1'') ?w =
      setMerged ''T1'' ''https://github.com/acme/widgets/pull/42''
        (log_line ''INFO'' (''[MERGE] PR #'' @ ''42'' @ '' was already merged'')
          ((log_line ''INFO'' (''[MERGE] Merging PR #'' @ ''42'' @ '' in '' @ ''acme'' @ ''/'' @ ''widgets'') ?w)
             \<lparr>commands := commands ?w @
                [''gh pr merge '' @ ''42'' @ '' --repo '' @ ''acme'' @ ''/'' @ ''widgets'' @
                 '' --squash --delete-branch'']\<rparr>))"
    by blast
  show ?thesis
    unfolding r using m inc
    by (simp add: setMerged_ok log_line_def store_with_def ticket_T1_def merged_row_def)
qed

section \<open>Errors during a sentinel review\<close>

lemmas engine_eval =
  executeSentinelReview_def sentinel_review_body_def atomicClaimReviewTicket_def
  setSentinelFailed_def setMerged_def mergePR_def bind_io_def return_io_def try_catch_def
  pg_update_tickets_def notifyTicketStateChange_def emitEvent_def next_fault_def log_line_def
  call_verify_def run_execSync_def already_merged_def js_includes_def truthy_def js_str_def
  feedback_text_def claimable_def claim_row_def sentinel_failed_row_def merged_row_def
  store_with_def ticket_T1_def env_of_def Error_def Let_def match_pr_here_def strip_prefix_def
  not_slash_def is_digit_def dispatch_review_def

lemma setSentinelFailed_rows_state:
  assumes "faults w = []"
  shows "map state (rows_of ticketId (snd (setSentinelFailed ticketId reason w))) =
     replicate (length (rows_of ticketId w)) ''sentinel_failed''"
proof -
  have "rows_of ticketId (snd (setSentinelFailed ticketId reason w)) =
       map (sentinel_failed_row (now w)) (rows_of ticketId w)"
    using rows_of_updated [of "sentinel_failed_row (now w)" ticketId w]
    by (simp add: setSentinelFailed_ok [OF assms] sentinel_failed_row_def rows_of_def)
  moreover have "map state (map (sentinel_failed_row (now w)) ts) =
      replicate (length ts) ''sentinel_failed''" for ts
    by (induction ts) (simp_all add: sentinel_failed_row_def)
  ultimately show ?thesis by simp
qed

lemma setSentinelFailed_fault:
  assumes "setSentinelFailed ticketId reason w = (Inl e, w')"
  shows "Some e \<in> set (take 3 (faults w))"
proof (cases "faults w")
  case Nil
  with assms show ?thesis by (simp add: setSentinelFailed_ok)
next
  case c1: (Cons f1 r1)
  show ?thesis
  proof (cases f1)
    case (Some a)
    with c1 assms show ?thesis
      by (simp add: setSentinelFailed_def bind_io_def pg_update_tickets_def next_fault_def)
  next
    case n1: None
    show ?thesis
    proof (cases r1)
      case Nil
      with c1 n1 assms show ?thesis
        by (simp add: setSentinelFailed_def bind_io_def pg_update_tickets_def next_fault_def
            notifyTicketStateChange_def emitEvent_def)
    next
      case c2: (Cons f2 r2)
      show ?thesis
      proof (cases f2)
        case (Some a)
        with c1 n1 c2 assms show ?thesis
          by (simp add: setSentinelFailed_def bind_io_def pg_update_tickets_def next_fault_def
              notifyTicketStateChange_def)
      next
        case n2: None
        show ?thesis
        proof (cases r2)
          case Nil
          with c1 n1 c2 n2 assms show ?thesis
            by (simp add: setSentinelFailed_def bind_io_def pg_update_tickets_def next_fault_def
                notifyTicketStateChange_def emitEvent_def)
        next
          case c3: (Cons f3 r3)
          with c1 n1 c2 n2 assms show ?thesis
            by (cases f3)
              (simp_all add: setSentinelFailed_def bind_io_def pg_update_tickets_def next_fault_def
                notifyTicketStateChange_def emitEvent_def numeral_3_eq_3)
        qed
      qed
    qed
  qed
qed

text \<open>
  C8 (amended): an error thrown in the \<^verbatim>\<open>try\<close> block of \<^verbatim>\<open>executeSentinelReview\<close> is
  caught by the top-level handler, which logs it and calls \<^verbatim>\<open>setSentinelFailed\<close> with the
  error's message; when the calls of that recording succeed, the review returns normally,
  the rows of the ticket are in state \<^verbatim>\<open>sentinel_failed\<close> and the last event carries the
  message.  The review rejects only with an error thrown by the recording of the top-level
  handler itself, one of its three calls to the store and the observers.  An error of
  \<^verbatim>\<open>mergePR\<close> after a passed verification is caught by the inner handler and recorded as
  \<^verbatim>\<open>Merge failed:\<close> followed by the message.
\<close>

theorem sentinel_review_error_handling:
  "(sentinel_review_body ev t
        (log_line ''INFO'' (''[SENTINEL] Starting review for '' @ ticket_id t) w) = (Inl err, w1) \<longrightarrow>
      executeSentinelReview ev t w =
        setSentinelFailed (ticket_id t) (message err)
          (log_line ''ERROR''
             (''[SENTINEL] Error reviewing '' @ ticket_id t @ '': '' @ js_str (message err)) w1) \<and>
      (faults w1 = [] \<longrightarrow>
         fst (executeSentinelReview ev t w) = Inr () \<and>
         map state (rows_of (ticket_id t) (snd (executeSentinelReview ev t w))) =
           replicate (length (rows_of (ticket_id t) w1)) ''sentinel_failed'' \<and>
         last (events (snd (executeSentinelReview ev t w))) =
           \<lparr>ev_ticket = ticket_id t, ev_type = ''sentinel_failed'', from_state = ''reviewing'',
             to_state = ''sentinel_failed'', ev_payload = Reason (message err)\<rparr>)) \<and>
   (executeSentinelReview ev t w = (Inl e, w') \<longrightarrow>
      (\<exists>err w1.
         sentinel_review_body ev t
           (log_line ''INFO'' (''[SENTINEL] Starting review for '' @ ticket_id t) w) = (Inl err, w1) \<and>
         setSentinelFailed (ticket_id t) (message err)
           (log_line ''ERROR''
              (''[SENTINEL] Error reviewing '' @ ticket_id t @ '': '' @ js_str (message err)) w1) =
           (Inl e, w') \<and>
         Some e \<in> set (take 3 (faults w1)))) \<and>
   (atomicClaimReviewTicket (ticket_id t) w0 = (Inr (Some c), wa) \<and>
    (if truthy (repo_url t) then return_io (repo_url t) else getRepoUrlForTicket t) wa =
      (Inr repoUrl, wb) \<and>
    truthy (pr_url t) \<and>
    call_verify ev t (ticket_id t) repoUrl wb = (Inr vr, wb) \<and> status vr = ''passed'' \<and>
    mergePR ev (ticket_id t) (the (pr_url t)) (branch_name t)
      (log_line ''INFO'' (''[SENTINEL] Approved! Merging PR for '' @ ticket_id t)
        (log_line ''INFO'' (''[SENTINEL] Review result for '' @ ticket_id t @ '': '' @ status vr) wb)) =
      (Inl mergeErr, wd) \<longrightarrow>
      sentinel_review_body ev t w0 =
        setSentinelFailed (ticket_id t) (Some (''Merge failed: '' @ js_str (message mergeErr)))
          (log_line ''ERROR''
             (''[SENTINEL] Merge failed for '' @ ticket_id t @ '': '' @ js_str (message mergeErr)) wd))"
proof (intro conjI impI)
  let ?start = "log_line ''INFO'' (''[SENTINEL] Starting review for '' @ ticket_id t) w"
  let ?h = "\<lambda>err w1. log_line ''ERROR''
             (''[SENTINEL] Error reviewing '' @ ticket_id t @ '': '' @ js_str (message err)) w1"
  {
    assume b: "sentinel_review_body ev t ?start = (Inl err, w1)"
    then show x: "executeSentinelReview ev t w = setSentinelFailed (ticket_id t) (message err) (?h err w1)"
      by (simp add: executeSentinelReview_def Let_def try_catch_def)
    assume nf: "faults w1 = []"
    then have nf': "faults (?h err w1) = []" by (simp add: log_line_def)
    have r: "rows_of (ticket_id t) (?h err w1) = rows_of (ticket_id t) w1"
      by (simp add: rows_of_def log_line_def)
    have sf: "fst (setSentinelFailed i r v) = Inr ()" if "faults v = []" for i r v
      using that by (simp add: setSentinelFailed_ok)
    have le: "last (events (snd (setSentinelFailed i r v))) =
        \<lparr>ev_ticket = i, ev_type = ''sentinel_failed'', from_state = ''reviewing'',
          to_state = ''sentinel_failed'', ev_payload = Reason r\<rparr>" if "faults v = []" for i r v
      using that by (simp add: setSentinelFailed_ok)
    show "fst (executeSentinelReview ev t w) = Inr ()"
      unfolding x by (rule sf [OF nf'])
    show "map state (rows_of (ticket_id t) (snd (executeSentinelReview ev t w))) =
           replicate (length (rows_of (ticket_id t) w1)) ''sentinel_failed''"
      unfolding x using setSentinelFailed_rows_state [OF nf', of "ticket_id t" "message err"]
      by (simp only: r)
    show "last (events (snd (executeSentinelReview ev t w))) =
           \<lparr>ev_ticket = ticket_id t, ev_type = ''sentinel_failed'', from_state = ''reviewing'',
             to_state = ''sentinel_failed'', ev_payload = Reason (message err)\<rparr>"
      unfolding x by (rule le [OF nf'])
  }
  {
    assume p: "executeSentinelReview ev t w = (Inl e, w')"
    obtain r w1 where b: "sentinel_review_body ev t ?start = (r, w1)"
      by (cases "sentinel_review_body ev t ?start") auto
    with p obtain err where err: "r = Inl err"
      by (cases r) (auto simp: executeSentinelReview_def Let_def try_catch_def)
    with b p have h: "setSentinelFailed (ticket_id t) (message err) (?h err w1) = (Inl e, w')"
      by (simp add: executeSentinelReview_def Let_def try_catch_def)
    from setSentinelFailed_fault [OF h] have "Some e \<in> set (take 3 (faults w1))"
      by (simp add: log_line_def)
    with b err h show "\<exists>err w1.
         sentinel_review_body ev t ?start = (Inl err, w1) \<and>
         setSentinelFailed (ticket_id t) (message err) (?h err w1) = (Inl e, w') \<and>
         Some e \<in> set (take 3 (faults w1))"
      by blast
  }
  {
    assume "atomicClaimReviewTicket (ticket_id t) w0 = (Inr (Some c), wa) \<and>
    (if truthy (repo_url t) then return_io (repo_url t) else getRepoUrlForTicket t) wa =
      (Inr repoUrl, wb) \<and>
    truthy (pr_url t) \<and>
    call_verify ev t (ticket_id t) repoUrl wb = (Inr vr, wb) \<and> status vr = ''passed'' \<and>
    mergePR ev (ticket_id t) (the (pr_url t)) (branch_name t)
      (log_line ''INFO'' (''[SENTINEL] Approved! Merging PR for '' @ ticket_id t)
        (log_line ''INFO'' (''[SENTINEL] Review result for '' @ ticket_id t @ '': '' @ status vr) wb)) =
      (Inl mergeErr, wd)"
    then have a1: "atomicClaimReviewTicket (ticket_id t) w0 = (Inr (Some c), wa)"
      and a2: "(if truthy (repo_url t) then return_io (repo_url t) else getRepoUrlForTicket t) wa =
        (Inr repoUrl, wb)"
      and a3: "truthy (pr_url t)"
      and a4: "call_verify ev t (ticket_id t) repoUrl wb = (Inr vr, wb)"
      and a5: "status vr = ''passed''"
      and a6: "mergePR ev (ticket_id t) (the (pr_url t)) (branch_name t)
        (log_line ''INFO'' (''[SENTINEL] Approved! Merging PR for '' @ ticket_id t)
          (log_line ''INFO'' (''[SENTINEL] Review result for '' @ ticket_id t @ '': '' @ status vr) wb)) =
        (Inl mergeErr, wd)"
      by blast+
    have "sentinel_review_body ev t w0 =
        try_catch (mergePR ev (ticket_id t) (the (pr_url t)) (branch_name t))
          (\<lambda>mergeErr w'.
              setSentinelFailed (ticket_id t)
                (Some (''Merge failed: '' @ js_str (message mergeErr)))
                (log_line ''ERROR''
                   (''[SENTINEL] Merge failed for '' @ ticket_id t @ '': '' @
                    js_str (message mergeErr)) w'))
          (log_line ''INFO'' (''[SENTINEL] Approved! Merging PR for '' @ ticket_id t)
            (log_line ''INFO'' (''[SENTINEL] Review result for '' @ ticket_id t @ '': '' @ status vr) wb))"
      unfolding sentinel_review_body_def Let_def bind_io_def
      by (simp only: a1 a2 a3 a4 a5 prod.case sum.case option.distinct if_False if_True
          not_True_eq_False simp_thms)
    also have "\<dots> = setSentinelFailed (ticket_id t) (Some (''Merge failed: '' @ js_str (message mergeErr)))
          (log_line ''ERROR''
             (''[SENTINEL] Merge failed for '' @ ticket_id t @ '': '' @ js_str (message mergeErr)) wd)"
      unfolding try_catch_def by (simp only: a6 prod.case sum.case)
    finally show "sentinel_review_body ev t w0 =
        setSentinelFailed (ticket_id t) (Some (''Merge failed: '' @ js_str (message mergeErr)))
          (log_line ''ERROR''
             (''[SENTINEL] Merge failed for '' @ ticket_id t @ '': '' @ js_str (message mergeErr)) wd)" .
  }
qed

text \<open>
  C8 as stated fails when the store stays unreachable: the verifier rejects, the recording
  of the failure throws, the top-level handler catches that and its own recording throws
  again.  The review rejects with that error, the ticket stays in \<^verbatim>\<open>reviewing\<close> with slot
  \<open>-1\<close>, and the \<^verbatim>\<open>.catch\<close> of the dispatch loop logs the error.
\<close>

theorem review_fault_propagates:
  "fst (executeSentinelReview rejecting_verifier ticket_T1 failing_store) =
     Inl (Error ''Connection terminated'') \<and>
   map state (tickets (snd (executeSentinelReview rejecting_verifier ticket_T1 failing_store))) =
     [''reviewing''] \<and>
   map vm_id (tickets (snd (executeSentinelReview rejecting_verifier ticket_T1 failing_store))) =
     [Some (- 1)] \<and>
   last (engine_log (dispatch_review rejecting_verifier ticket_T1 failing_store)) =
     (''ERROR'', ''[SENTINEL] Async review error for T1: Connection terminated'')"
  by (simp add: engine_eval failing_store_def rejecting_verifier_def)

theorem sentinel_review_error_handling_witness:
  "fst (executeSentinelReview crashing_verifier ticket_T1 (store_with [ticket_T1] [])) = Inr () \<and>
   map state (tickets (snd (executeSentinelReview crashing_verifier ticket_T1
      (store_with [ticket_T1] [])))) = [''sentinel_failed''] \<and>
   last (events (snd (executeSentinelReview crashing_verifier ticket_T1 (store_with [ticket_T1] [])))) =
     \<lparr>ev_ticket = ''T1'', ev_type = ''sentinel_failed'', from_state = ''reviewing'',
       to_state = ''sentinel_failed'', ev_payload = Reason (Some ''verifier crashed'')\<rparr> \<and>
   (\<exists>err w1.
      sentinel_review_body rejecting_verifier ticket_T1
        (log_line ''INFO'' (''[SENTINEL] Starting review for '' @ ticket_id ticket_T1) failing_store) =
        (Inl err, w1) \<and>
      Some (Error ''Connection terminated'') \<in> set (take 3 (faults w1))) \<and>
   fst (executeSentinelReview unmergeable ticket_T1 (store_with [ticket_T1] [])) = Inr () \<and>
   map state (tickets (snd (executeSentinelReview unmergeable ticket_T1
      (store_with [ticket_T1] [])))) = [''sentinel_failed''] \<and>
   last (events (snd (executeSentinelReview unmergeable ticket_T1 (store_with [ticket_T1] [])))) =
     \<lparr>ev_ticket = ''T1'', ev_type = ''sentinel_failed'', from_state = ''reviewing'',
       to_state = ''sentinel_failed'',
       ev_payload = Reason (Some ''Merge failed: HTTP 405: not mergeable'')\<rparr>"
proof -
  let ?w = "store_with [ticket_T1] []"
  let ?start = "log_line ''INFO'' (''[SENTINEL] Starting review for '' @ ticket_id ticket_T1) ?w"
  let ?err = "Error ''verifier crashed''"
  let ?after = "snd (sentinel_review_body crashing_verifier ticket_T1 ?start)"
  have b: "sentinel_review_body crashing_verifier ticket_T1 ?start = (Inl ?err, ?after)"
    by (simp add: engine_eval crashing_verifier_def)
  have nf: "faults ?after = []"
    by (simp add: engine_eval crashing_verifier_def)
  have rows: "rows_of (ticket_id ticket_T1) w = tickets w" if "map ticket_id (tickets w) = [''T1'']" for w
    using that by (cases "tickets w") (auto simp: rows_of_def ticket_T1_def)
  have len: "length (rows_of (ticket_id ticket_T1) ?after) = 1"
    by (simp add: rows_of_def engine_eval crashing_verifier_def)
  note A = sentinel_review_error_handling [of crashing_verifier ticket_T1 ?w ?err ?after]
  from A b nf have a1: "fst (executeSentinelReview crashing_verifier ticket_T1 ?w) = Inr ()"
    and a2: "map state (rows_of (ticket_id ticket_T1)
        (snd (executeSentinelReview crashing_verifier ticket_T1 ?w))) =
           replicate (length (rows_of (ticket_id ticket_T1) ?after)) ''sentinel_failed''"
    and a3: "last (events (snd (executeSentinelReview crashing_verifier ticket_T1 ?w))) =
           \<lparr>ev_ticket = ticket_id ticket_T1, ev_type = ''sentinel_failed'', from_state = ''reviewing'',
             to_state = ''sentinel_failed'', ev_payload = Reason (message ?err)\<rparr>"
    by blast+
  have ids: "map ticket_id (tickets (snd (executeSentinelReview crashing_verifier ticket_T1 ?w))) = [''T1'']"
    by (simp add: engine_eval crashing_verifier_def)
  have s: "map state (tickets (snd (executeSentinelReview crashing_verifier ticket_T1 ?w))) =
      [''sentinel_failed'']"
    using a2 by (simp only: rows [OF ids] len) simp
  have e: "last (events (snd (executeSentinelReview crashing_verifier ticket_T1 ?w))) =
     \<lparr>ev_ticket = ''T1'', ev_type = ''sentinel_failed'', from_state = ''reviewing'',
       to_state = ''sentinel_failed'', ev_payload = Reason (Some ''verifier crashed'')\<rparr>"
    using a3 by (simp add: ticket_T1_def Error_def)
  have p: "executeSentinelReview rejecting_verifier ticket_T1 failing_store =
      (Inl (Error ''Connection terminated''),
       snd (executeSentinelReview rejecting_verifier ticket_T1 failing_store))"
    by (simp add: engine_eval failing_store_def rejecting_verifier_def)
  from sentinel_review_error_handling [of rejecting_verifier ticket_T1 failing_store _ _
      "Error ''Connection terminated''"
      "snd (executeSentinelReview rejecting_verifier ticket_T1 failing_store)"] p
  have B: "\<exists>err w1.
      sentinel_review_body rejecting_verifier ticket_T1
        (log_line ''INFO'' (''[SENTINEL] Starting review for '' @ ticket_id ticket_T1) failing_store) =
        (Inl err, w1) \<and>
      Some (Error ''Connection terminated'') \<in> set (take 3 (faults w1))"
    by blast
  have M: "fst (executeSentinelReview unmergeable ticket_T1 (store_with [ticket_T1] [])) = Inr () \<and>
   map state (tickets (snd (executeSentinelReview unmergeable ticket_T1
      (store_with [ticket_T1] [])))) = [''sentinel_failed''] \<and>
   last (events (snd (executeSentinelReview unmergeable ticket_T1 (store_with [ticket_T1] [])))) =
     \<lparr>ev_ticket = ''T1'', ev_type = ''sentinel_failed'', from_state = ''reviewing'',
       to_state = ''sentinel_failed'',
       ev_payload = Reason (Some ''Merge failed: HTTP 405: not mergeable'')\<rparr>"
  proof -
    let ?ev = unmergeable
    let ?t = ticket_T1
    let ?s = "log_line ''INFO'' (''[SENTINEL] Starting review for '' @ ticket_id ?t) (store_with [?t] [])"
    let ?a = "snd (atomicClaimReviewTicket (ticket_id ?t) ?s)"
    let ?vr = "\<lparr>status = ''passed'', feedback_for_agent = None\<rparr>"
    let ?m = "log_line ''INFO'' (''[SENTINEL] Approved! Merging PR for '' @ ticket_id ?t)
          (log_line ''INFO'' (''[SENTINEL] Review result for '' @ ticket_id ?t @ '': '' @ status ?vr) ?a)"
    let ?d = "snd (mergePR ?ev (ticket_id ?t) (the (pr_url ?t)) (branch_name ?t) ?m)"
    let ?e = "Error ''HTTP 405: not mergeable''"
    have a1: "atomicClaimReviewTicket (ticket_id ?t) ?s = (Inr (Some (claim_row 7 ?t)), ?a)"
      by (simp add: engine_eval)
    have a2: "(if truthy (repo_url ?t) then return_io (repo_url ?t) else getRepoUrlForTicket ?t) ?a =
        (Inr (repo_url ?t), ?a)"
      by (simp add: truthy_def ticket_T1_def return_io_def)
    have a3: "truthy (pr_url ?t)" by (simp add: truthy_def ticket_T1_def)
    have a4: "call_verify ?ev ?t (ticket_id ?t) (repo_url ?t) ?a = (Inr ?vr, ?a)"
      by (simp add: call_verify_def unmergeable_def env_of_def)
    have a5: "status ?vr = ''passed''" by simp
    have a6: "mergePR ?ev (ticket_id ?t) (the (pr_url ?t)) (branch_name ?t) ?m = (Inl ?e, ?d)"
      by (simp add: engine_eval unmergeable_def)
    have nf: "faults ?d = []"
      by (simp add: engine_eval unmergeable_def)
    from sentinel_review_error_handling [where ev = ?ev and t = ?t and ?w0.0 = ?s
        and c = "claim_row 7 ?t" and wa = ?a and repoUrl = "repo_url ?t" and wb = ?a and vr = ?vr
        and mergeErr = ?e and wd = ?d] a1 a2 a3 a4 a5 a6
    have body: "sentinel_review_body ?ev ?t ?s =
          setSentinelFailed (ticket_id ?t) (Some (''Merge failed: '' @ js_str (message ?e)))
            (log_line ''ERROR''
               (''[SENTINEL] Merge failed for '' @ ticket_id ?t @ '': '' @ js_str (message ?e)) ?d)"
      by blast
    have fin: "fst (sentinel_review_body ?ev ?t ?s) = Inr ()"
      unfolding body using nf by (simp add: setSentinelFailed_ok log_line_def)
    from fin show ?thesis
      by (simp add: engine_eval unmergeable_def)
  qed
  from a1 s e B M show ?thesis by blast
qed

end
